theory Spec2Isabelle
  imports Main "HOL-Library.Multiset" "HOL-Library.Sublist" "HOL-Library.Char_ord"
    "HOL-Library.List_Lexorder"
begin

section \<open>Strings and the Go number parsers\<close>

text \<open>
  Go strings are byte sequences; they are modelled as \<^typ>\<open>string\<close>.  The helpers
  below read ASCII digits and letters by their byte value.
\<close>

definition is_digit :: "char \<Rightarrow> bool" where
  "is_digit c = (48 \<le> (of_char c :: nat) \<and> (of_char c :: nat) \<le> 57)"

definition digit_val :: "char \<Rightarrow> nat" where
  "digit_val c = of_char c - 48"

definition dec_val :: "string \<Rightarrow> nat" where
  "dec_val s = foldl (\<lambda>n c. 10 * n + digit_val c) 0 s"

text \<open>The ASCII letters \<open>A\<close> to \<open>Z\<close> become \<open>a\<close> to \<open>z\<close>; every other byte stays.\<close>

definition lower_char :: "char \<Rightarrow> char" where
  "lower_char c =
     (case map_of (zip ''ABCDEFGHIJKLMNOPQRSTUVWXYZ'' ''abcdefghijklmnopqrstuvwxyz'') c of
        Some l \<Rightarrow> l
      | None \<Rightarrow> c)"

text \<open>
  \<open>strings.ToLower\<close> of Go and \<open>LOWER\<close> of SQLite.  SQLite's function changes the
  bytes \<open>A\<close> to \<open>Z\<close> only, which is \<open>lower_char\<close> on every byte.  Go's function
  agrees with it on ASCII text; on other text it also folds non-ASCII letters, which is
  outside this model.
\<close>

definition ToLower :: "string \<Rightarrow> string" where
  "ToLower s = map lower_char s"

definition sql_LOWER :: "string \<Rightarrow> string" where
  "sql_LOWER s = map lower_char s"

datatype NumError = ErrSyntax | ErrRange

text \<open>
  Go's \<open>int\<close> is 64 bits wide on the platforms the service is built for; \<open>wrap64\<close>
  is the two's complement wrap-around of its arithmetic and \<open>quot\<close> its division, which
  truncates towards zero.
\<close>

definition max_int :: int where
  "max_int = 9223372036854775807"

definition min_int :: int where
  "min_int = - 9223372036854775808"

definition wrap64 :: "int \<Rightarrow> int" where
  "wrap64 x = (x + 9223372036854775808) mod 18446744073709551616 - 9223372036854775808"

definition quot :: "int \<Rightarrow> int \<Rightarrow> int" where
  "quot a b = sgn a * sgn b * (\<bar>a\<bar> div \<bar>b\<bar>)"

fun split_sign :: "string \<Rightarrow> bool \<times> string" where
  "split_sign [] = (False, [])"
| "split_sign (c # cs) =
     (if c = CHR ''-'' then (True, cs) else if c = CHR ''+'' then (False, cs) else (False, c # cs))"

text \<open>
  \<open>strconv.Atoi\<close>: an optional sign and at least one decimal digit.  On a syntax
  error the value is 0; on a range error it is the nearest bound of \<open>int\<close>.  Both the
  value and the error are returned, as in Go, since one caller discards the error.
\<close>

definition Atoi :: "string \<Rightarrow> int \<times> NumError option" where
  "Atoi s =
     (case split_sign s of (neg, body) \<Rightarrow>
        if body = [] \<or> \<not> list_all is_digit body then (0, Some ErrSyntax)
        else let v = (if neg then - int (dec_val body) else int (dec_val body)) in
          if v > max_int then (max_int, Some ErrRange)
          else if v < min_int then (min_int, Some ErrRange)
          else (v, None))"

text \<open>
  \<open>strconv.ParseUint(s, 10, 32)\<close>: decimal digits only (no sign, no underscore), and
  a value below \<open>2 ^ 32\<close>.
\<close>

definition ParseUint32 :: "string \<Rightarrow> nat \<times> NumError option" where
  "ParseUint32 s =
     (if s = [] \<or> \<not> list_all is_digit s then (0, Some ErrSyntax)
      else if dec_val s > 4294967295 then (4294967295, Some ErrRange)
      else (dec_val s, None))"

section \<open>The event record and its table\<close>

text \<open>
  \<open>time.Time\<close>, read in UTC: the calendar date and the nanoseconds since midnight.
  The zero value of \<open>time.Time\<close> is January 1 of year 1, 00:00:00 UTC.
\<close>

record Time =
  year :: nat
  month :: nat
  day :: nat
  clock :: nat

definition IsZero :: "Time \<Rightarrow> bool" where
  "IsZero t = (year t = 1 \<and> month t = 1 \<and> day t = 1 \<and> clock t = 0)"

text \<open>
  The struct \<open>Event\<close> of \<open>database.go\<close>.  Its field \<open>Rank\<close> is left out: it is
  tagged \<open>gorm:"-"\<close> and \<open>json:"-"\<close>, so it is neither stored nor returned.
\<close>

record Event =
  ID :: nat
  Date :: Time
  Title :: string
  Description :: string
  Tags :: string
  Media :: string
  References :: string
  CreatedAt :: Time
  UpdatedAt :: Time

text \<open>
  The errors a GORM call reports.  \<open>ErrRecordNotFound\<close> is the one the handlers
  single out; \<open>ErrConstraint\<close> is SQLite's refusal of a second row with a primary key
  already in the table, \<open>ErrSQL\<close> any other refusal of a statement by SQLite.
\<close>

datatype GormError = ErrRecordNotFound | ErrConstraint | ErrSQL

text \<open>
  What a handler sends back: the HTTP status, with the payload on success and the
  \<open>error\<close> message otherwise.
\<close>

datatype 'a Response =
    Status200 'a
  | Status201 'a
  | Status204
  | Status400 string
  | Status404 string
  | Status500 string

section \<open>Storage: the events table and its full-text index\<close>

text \<open>
  One language variant's database: the rows of table \<open>events\<close> in insertion order, the
  FTS5 index \<open>events_fts\<close>, and SQLite's \<open>AUTOINCREMENT\<close> counter (the largest row id
  the table ever held).

  \<open>events_fts\<close> is an external-content FTS5 table over the columns \<open>title\<close>,
  \<open>description\<close> and \<open>tags\<close>, keyed by \<open>id\<close>.  It holds what was indexed: one
  document per index insert.  FTS5's \<open>'delete'\<close> command takes an indexed document out
  again and must be given the values that were indexed.  When they are not in the index,
  FTS5 reports a malformed database image and the statement whose trigger gave the command
  fails (\<open>None\<close>).  It notices this by its counters; a case where the counters let the
  command pass and the index is damaged without a report is not modelled.

  The database is a value in memory.  Failures of the storage itself (an unreadable file, a
  locked database) are not modelled: a statement fails only where SQLite refuses what it
  is asked to do, and the handlers' branches for other failures are kept but never taken.
\<close>

type_synonym fts_doc = "nat \<times> string \<times> string \<times> string"

datatype fts_index = Index "fts_doc list"

record DB =
  events :: "Event list"
  events_fts :: fts_index
  seq :: nat

definition doc_of :: "Event \<Rightarrow> fts_doc" where
  "doc_of e = (ID e, Title e, Description e, Tags e)"

definition fts_insert :: "fts_doc \<Rightarrow> fts_index \<Rightarrow> fts_index" where
  "fts_insert d ix = (case ix of Index ds \<Rightarrow> Index (ds @ [d]))"

definition fts_delete :: "fts_doc \<Rightarrow> fts_index \<Rightarrow> fts_index option" where
  "fts_delete d ix =
     (case ix of Index ds \<Rightarrow> if d \<in> set ds then Some (Index (remove1 d ds)) else None)"

text \<open>
  The three triggers \<open>InitDB\<close> creates on table \<open>events\<close>.  A trigger that fails makes
  the statement that fired it fail.
\<close>

definition events_after_insert :: "Event \<Rightarrow> fts_index \<Rightarrow> fts_index" where
  "events_after_insert new ix = fts_insert (doc_of new) ix"

definition events_after_delete :: "Event \<Rightarrow> fts_index \<Rightarrow> fts_index option" where
  "events_after_delete old ix = fts_delete (doc_of old) ix"

definition events_after_update :: "Event \<Rightarrow> Event \<Rightarrow> fts_index \<Rightarrow> fts_index option" where
  "events_after_update old new ix =
     (case fts_delete (doc_of old) ix of
        None \<Rightarrow> None
      | Some ix' \<Rightarrow> Some (fts_insert (doc_of new) ix'))"

text \<open>What \<open>InitDB\<close> leaves when it creates a new database file.\<close>

definition fresh_db :: DB where
  "fresh_db = \<lparr>events = [], events_fts = Index [], seq = 0\<rparr>"

text \<open>
  \<open>InitDB\<close> on a database file that exists.  The table, the index and the triggers are
  created only if they are missing, so what the file holds stays.  Then the "initial
  population": the rows of \<open>events\<close> are counted, and so are those of \<open>events_fts\<close>;
  when the table has rows and the index has none, every row is indexed.  Counting the rows
  of an external-content FTS5 table reads the content table, here \<open>events\<close> itself, so
  \<open>ftsCount\<close> is the number of rows of \<open>events\<close>, whatever the index holds.
\<close>

definition InitDB :: "DB \<Rightarrow> DB" where
  "InitDB db =
     (let count = length (events db);
          ftsCount = length (events db)
      in if count > 0 \<and> ftsCount = 0
         then db\<lparr>events_fts := foldl (\<lambda>ix e. fts_insert (doc_of e) ix) (events_fts db) (events db)\<rparr>
         else db)"

subsection \<open>The GORM calls of the handlers\<close>

text \<open>
  \<open>db.First(&event, id)\<close>: the row with that primary key, or \<open>ErrRecordNotFound\<close>.
\<close>

definition db_First :: "DB \<Rightarrow> nat \<Rightarrow> GormError + Event" where
  "db_First db i =
     (case find (\<lambda>e. ID e = i) (events db) of
        None \<Rightarrow> Inl ErrRecordNotFound
      | Some e \<Rightarrow> Inr e)"

definition max_id :: "Event list \<Rightarrow> nat" where
  "max_id es = foldr max (map ID es) 0"

text \<open>
  The limits of SQLite that the inserts can reach.  A row id is a signed 64-bit integer,
  so the largest is \<open>2 ^ 63 - 1\<close>.  A statement has at most 32766 host parameters
  (\<open>SQLITE_MAX_VARIABLE_NUMBER\<close>, the default of SQLite 3.32 and later).
\<close>

definition max_rowid :: nat where
  "max_rowid = 9223372036854775807"

definition max_variables :: nat where
  "max_variables = 32766"

text \<open>
  The insert of one row, by \<open>db.Create\<close>.  GORM leaves a zero \<open>ID\<close> to SQLite, which
  assigns the next id: one more than the largest id the table ever held (the column is
  \<open>PRIMARY KEY AUTOINCREMENT\<close>), and none when that largest id is \<open>max_rowid\<close>; the
  insert then fails with \<open>database or disk is full\<close>.  An \<open>ID\<close> the caller set is
  inserted as it is, and refused when a row already has it.  GORM sets \<open>CreatedAt\<close>
  and \<open>UpdatedAt\<close> to the current time where they are zero.  The insert fires trigger
  \<open>events_after_insert\<close>.

  The Go field \<open>ID\<close> is a \<open>uint\<close> and can hold an id above \<open>max_rowid\<close>, which is
  no row id.  What GORM and the driver make of such a value is not modelled: the
  definition refuses it, and nothing below is stated about such a record.
\<close>

definition stamp :: "Time \<Rightarrow> Time \<Rightarrow> Time" where
  "stamp now t = (if IsZero t then now else t)"

definition db_Create :: "Time \<Rightarrow> Event \<Rightarrow> DB \<Rightarrow> GormError + (Event \<times> DB)" where
  "db_Create now e db =
     (if ID e = 0 \<and> max_rowid \<le> max (seq db) (max_id (events db)) then Inl ErrSQL
      else if max_rowid < ID e then Inl ErrSQL
      else
        let i = (if ID e = 0 then Suc (max (seq db) (max_id (events db))) else ID e) in
        if i \<in> set (map ID (events db)) then Inl ErrConstraint
        else
          let new = e\<lparr>ID := i, CreatedAt := stamp now (CreatedAt e),
                      UpdatedAt := stamp now (UpdatedAt e)\<rparr>
          in Inr (new, db\<lparr>events := events db @ [new],
                          events_fts := events_after_insert new (events_fts db),
                          seq := max (seq db) i\<rparr>))"

text \<open>
  \<open>db.Create(&events)\<close> on a slice.  No \<open>CreateBatchSize\<close> is configured, so GORM
  writes one \<open>INSERT\<close> statement with a row per element.  Each row binds eight host
  parameters (\<open>date\<close>, \<open>title\<close>, \<open>description\<close>, \<open>tags\<close>, \<open>media\<close>,
  \<open>references\<close>, \<open>created_at\<close>, \<open>updated_at\<close>) and one more for its id when that is
  not zero; a statement with more than \<open>max_variables\<close> of them is refused
  (\<open>too many SQL variables\<close>).  Otherwise the rows are inserted in order
  (\<open>insert_rows\<close>), each like the row of a single insert, and the statement fails as a
  whole when one row is refused: then no row of it is kept.
\<close>

fun insert_rows :: "Time \<Rightarrow> Event list \<Rightarrow> DB \<Rightarrow> GormError + (Event list \<times> DB)" where
  "insert_rows now [] db = Inr ([], db)"
| "insert_rows now (e # es) db =
     (case db_Create now e db of
        Inl err \<Rightarrow> Inl err
      | Inr (new, db') \<Rightarrow>
          (case insert_rows now es db' of
             Inl err \<Rightarrow> Inl err
           | Inr (news, db'') \<Rightarrow> Inr (new # news, db'')))"

definition db_CreateAll :: "Time \<Rightarrow> Event list \<Rightarrow> DB \<Rightarrow> GormError + (Event list \<times> DB)" where
  "db_CreateAll now evs db =
     (if max_variables < 8 * length evs + length (filter (\<lambda>e. ID e \<noteq> 0) evs) then Inl ErrSQL
      else insert_rows now evs db)"

text \<open>
  The body of an update request, a JSON object decoded into a Go map: the columns it
  names, each with its new value.
\<close>

record Update =
  u_id :: "nat option"
  u_date :: "Time option"
  u_title :: "string option"
  u_description :: "string option"
  u_tags :: "string option"
  u_media :: "string option"
  u_references :: "string option"
  u_created_at :: "Time option"
  u_updated_at :: "Time option"

definition or_else :: "'a option \<Rightarrow> 'a \<Rightarrow> 'a" where
  "or_else v d = (case v of None \<Rightarrow> d | Some x \<Rightarrow> x)"

definition apply_update :: "Time \<Rightarrow> Update \<Rightarrow> Event \<Rightarrow> Event" where
  "apply_update now u e =
     \<lparr>ID = or_else (u_id u) (ID e),
      Date = or_else (u_date u) (Date e),
      Title = or_else (u_title u) (Title e),
      Description = or_else (u_description u) (Description e),
      Tags = or_else (u_tags u) (Tags e),
      Media = or_else (u_media u) (Media e),
      References = or_else (u_references u) (References e),
      CreatedAt = or_else (u_created_at u) (CreatedAt e),
      UpdatedAt = or_else (u_updated_at u) now\<rparr>"

text \<open>
  \<open>db.Model(&event).Updates(updateData)\<close>: \<open>UPDATE events SET ... WHERE id = ?\<close> with
  the columns of the map, and \<open>updated_at\<close> set to the current time unless the map names
  it.  A new id that another row holds is refused.  Trigger \<open>events_after_update\<close> fires
  for each row changed; when it fails, so does the statement, and nothing is changed.
\<close>

fun update_rows ::
  "Time \<Rightarrow> Update \<Rightarrow> nat \<Rightarrow> Event list \<Rightarrow> fts_index \<Rightarrow> (Event list \<times> fts_index) option" where
  "update_rows now u i [] ix = Some ([], ix)"
| "update_rows now u i (e # es) ix =
     (if ID e = i then
        (case events_after_update e (apply_update now u e) ix of
           None \<Rightarrow> None
         | Some ix1 \<Rightarrow>
             (case update_rows now u i es ix1 of
                None \<Rightarrow> None
              | Some (es', ix') \<Rightarrow> Some (apply_update now u e # es', ix')))
      else (case update_rows now u i es ix of
              None \<Rightarrow> None
            | Some (es', ix') \<Rightarrow> Some (e # es', ix')))"

definition db_Updates :: "Time \<Rightarrow> nat \<Rightarrow> Update \<Rightarrow> DB \<Rightarrow> GormError + DB" where
  "db_Updates now i u db =
     (case u_id u of
        Some j \<Rightarrow>
          if j \<noteq> i \<and> i \<in> set (map ID (events db)) \<and> j \<in> set (map ID (events db))
          then Inl ErrConstraint
          else (case update_rows now u i (events db) (events_fts db) of
                  None \<Rightarrow> Inl ErrSQL
                | Some (es, ix) \<Rightarrow> Inr (db\<lparr>events := es, events_fts := ix\<rparr>))
      | None \<Rightarrow>
          (case update_rows now u i (events db) (events_fts db) of
             None \<Rightarrow> Inl ErrSQL
           | Some (es, ix) \<Rightarrow> Inr (db\<lparr>events := es, events_fts := ix\<rparr>)))"

text \<open>
  \<open>db.Delete(&Event{}, id)\<close>: \<open>DELETE FROM events WHERE id = ?\<close>, with the number of
  rows it removed.  Trigger \<open>events_after_delete\<close> fires for each of them; when it
  fails, so does the statement, and nothing is removed.
\<close>

fun delete_rows :: "nat \<Rightarrow> Event list \<Rightarrow> fts_index \<Rightarrow> (Event list \<times> fts_index) option" where
  "delete_rows i [] ix = Some ([], ix)"
| "delete_rows i (e # es) ix =
     (if ID e = i then
        (case events_after_delete e ix of
           None \<Rightarrow> None
         | Some ix1 \<Rightarrow> delete_rows i es ix1)
      else (case delete_rows i es ix of
              None \<Rightarrow> None
            | Some (es', ix') \<Rightarrow> Some (e # es', ix')))"

definition db_Delete :: "nat \<Rightarrow> DB \<Rightarrow> GormError + (nat \<times> DB)" where
  "db_Delete i db =
     (case delete_rows i (events db) (events_fts db) of
        None \<Rightarrow> Inl ErrSQL
      | Some (es, ix) \<Rightarrow> Inr (length (filter (\<lambda>e. ID e = i) (events db)),
                             db\<lparr>events := es, events_fts := ix\<rparr>))"

section \<open>The handlers of \<open>main.go\<close>\<close>

text \<open>
  A handler takes the database \<open>getDBInstance\<close> chose for the request and what it reads
  from the request; a handler that writes also takes the current time and returns the
  database it leaves.  A request body the JSON parser refuses is \<open>None\<close>.  The model
  starts where Fiber calls the handler: a request that the middleware answers (no valid
  API key, rate limit reached) or that Fiber refuses for the size of its body (more than
  4 MB) does not reach a handler.
\<close>

definition getDBInstance :: "string \<Rightarrow> DB \<Rightarrow> DB \<Rightarrow> DB" where
  "getDBInstance langCode DB_EN DB_RU = (if ToLower langCode = ''ru'' then DB_RU else DB_EN)"

definition getEventHandler :: "DB \<Rightarrow> string \<Rightarrow> Event Response" where
  "getEventHandler db idstr =
     (if idstr = [] then Status400 ''Event ID is required''
      else case ParseUint32 idstr of
        (eventID, Some err) \<Rightarrow> Status400 ''Invalid Event ID format''
      | (eventID, None) \<Rightarrow>
          (case db_First db eventID of
             Inr event \<Rightarrow> Status200 event
           | Inl ErrRecordNotFound \<Rightarrow> Status404 ''Event not found''
           | Inl other \<Rightarrow> Status500 ''Failed to retrieve event''))"

definition createEventHandler :: "Time \<Rightarrow> DB \<Rightarrow> Event option \<Rightarrow> Event Response \<times> DB" where
  "createEventHandler now db body =
     (case body of
        None \<Rightarrow> (Status400 ''Cannot parse JSON'', db)
      | Some event \<Rightarrow>
          if Title event = [] \<or> IsZero (Date event)
          then (Status400 ''Title and Date are required fields'', db)
          else (case db_Create now event db of
                  Inl err \<Rightarrow> (Status500 ''Failed to create event'', db)
                | Inr (new, db') \<Rightarrow> (Status201 new, db')))"

definition updateEventHandler ::
  "Time \<Rightarrow> DB \<Rightarrow> string \<Rightarrow> Update option \<Rightarrow> Event Response \<times> DB" where
  "updateEventHandler now db idstr body =
     (case ParseUint32 idstr of
        (eventID, Some err) \<Rightarrow> (Status400 ''Invalid Event ID'', db)
      | (eventID, None) \<Rightarrow>
          (case db_First db eventID of
             Inl ErrRecordNotFound \<Rightarrow> (Status404 ''Event not found'', db)
           | Inl other \<Rightarrow> (Status500 ''Database error'', db)
           | Inr event \<Rightarrow>
               (case body of
                  None \<Rightarrow> (Status400 ''Cannot parse JSON'', db)
                | Some updateData \<Rightarrow>
                    (case db_Updates now (ID event) updateData db of
                       Inl err \<Rightarrow> (Status500 ''Failed to update event'', db)
                     | Inr db' \<Rightarrow> (Status200 (apply_update now updateData event), db')))))"

definition deleteEventHandler :: "DB \<Rightarrow> string \<Rightarrow> unit Response \<times> DB" where
  "deleteEventHandler db idstr =
     (case ParseUint32 idstr of
        (eventID, Some err) \<Rightarrow> (Status400 ''Invalid Event ID'', db)
      | (eventID, None) \<Rightarrow>
          (case db_Delete eventID db of
             Inl err \<Rightarrow> (Status500 ''Failed to delete event'', db)
           | Inr (RowsAffected, db') \<Rightarrow>
               if RowsAffected = 0 then (Status404 ''Event not found'', db')
               else (Status204, db')))"

text \<open>
  The batch handler answers with the number of rows added (\<open>events_added\<close>).
\<close>

definition batchCreateEventsHandler ::
  "Time \<Rightarrow> DB \<Rightarrow> Event list option \<Rightarrow> nat Response \<times> DB" where
  "batchCreateEventsHandler now db body =
     (case body of
        None \<Rightarrow> (Status400 ''Cannot parse JSON'', db)
      | Some evs \<Rightarrow>
          if length evs = 0 then (Status400 ''No events provided in the batch'', db)
          else (case db_CreateAll now evs db of
                  Inl err \<Rightarrow> (Status500 ''Failed to create events in batch'', db)
                | Inr (news, db') \<Rightarrow> (Status201 (length news), db')))"

section \<open>Listing requests\<close>

subsection \<open>What SQLite does for the listing queries\<close>

text \<open>
  \<open>strftime\<close> on the stored date gives the year as four digits and the month and the
  day as two digits each.  SQLite reads dates of the years 0 to 9999 only; for any other
  date the result is \<open>NULL\<close> (\<open>None\<close>), and a comparison with \<open>NULL\<close> selects no row.
\<close>

definition digit_char :: "nat \<Rightarrow> char" where
  "digit_char n = ''0123456789'' ! (n mod 10)"

definition pad2 :: "nat \<Rightarrow> string" where
  "pad2 n = [digit_char (n div 10), digit_char n]"

definition strftime_Y :: "Time \<Rightarrow> string option" where
  "strftime_Y t = (if year t \<le> 9999 then Some (pad2 (year t div 100) @ pad2 (year t mod 100)) else None)"

definition strftime_m :: "Time \<Rightarrow> string option" where
  "strftime_m t = (if year t \<le> 9999 then Some (pad2 (month t)) else None)"

definition strftime_d :: "Time \<Rightarrow> string option" where
  "strftime_d t = (if year t \<le> 9999 then Some (pad2 (day t)) else None)"

text \<open>
  \<open>ORDER BY\<close>: the rows come back as some arrangement of the selected rows that is
  sorted by the ordering; SQLite leaves the order of rows that the ordering does not
  separate undefined.  \<open>sql_order_by le rows out\<close> says that \<open>out\<close> is such an
  arrangement.  \<open>LIMIT l OFFSET o\<close> then keeps \<open>l\<close> rows after the first \<open>o\<close>; an
  offset that is not positive skips nothing.
\<close>

definition sql_order_by :: "('a \<Rightarrow> 'a \<Rightarrow> bool) \<Rightarrow> 'a list \<Rightarrow> 'a list \<Rightarrow> bool" where
  "sql_order_by le rows out \<longleftrightarrow> mset out = mset rows \<and> sorted_wrt le out"

definition limit_offset :: "int \<Rightarrow> int \<Rightarrow> 'a list \<Rightarrow> 'a list" where
  "limit_offset l off rows = take (nat l) (drop (nat off) rows)"

definition time_le :: "Time \<Rightarrow> Time \<Rightarrow> bool" where
  "time_le a b \<longleftrightarrow>
     year a < year b \<or> (year a = year b \<and>
       (month a < month b \<or> (month a = month b \<and>
          (day a < day b \<or> (day a = day b \<and> clock a \<le> clock b)))))"

text \<open>\<open>ORDER BY date desc\<close>.\<close>

definition date_desc :: "Event \<Rightarrow> Event \<Rightarrow> bool" where
  "date_desc a b = time_le (Date b) (Date a)"

text \<open>
  SQLite's \<open>LIKE\<close>: \<open>%\<close> in the pattern stands for any run of characters, \<open>_\<close> for
  any one character, and every other character for itself, upper and lower case ASCII
  letters taken as equal.
\<close>

fun sql_LIKE :: "string \<Rightarrow> string \<Rightarrow> bool" where
  "sql_LIKE [] s = (s = [])"
| "sql_LIKE (p # ps) [] = (p = CHR ''%'' \<and> sql_LIKE ps [])"
| "sql_LIKE (p # ps) (c # cs) =
     (if p = CHR ''%'' then sql_LIKE ps (c # cs) \<or> sql_LIKE (p # ps) cs
      else (p = CHR ''_'' \<or> lower_char p = lower_char c) \<and> sql_LIKE ps cs)"

subsection \<open>The handlers\<close>

record PaginationData =
  CurrentPage :: int
  PerPage :: int
  Total :: int
  LastPage :: int

text \<open>
  Fiber's \<open>c.Query(key, default)\<close>: the default stands in for a parameter that is
  absent or empty.
\<close>

definition Query :: "string \<Rightarrow> string \<Rightarrow> string" where
  "Query v d = (if v = [] then d else v)"

text \<open>
  The \<open>WHERE\<close> clause \<open>getAllEventsHandler\<close> of \<open>main.go\<close> builds: each of year,
  month and day that is not empty becomes a condition; a month or day of one character
  gets a leading zero.
\<close>

definition getAllEvents_where :: "string \<Rightarrow> string \<Rightarrow> string \<Rightarrow> Event \<Rightarrow> bool" where
  "getAllEvents_where yearStr monthStr dayStr e \<longleftrightarrow>
     (if yearStr \<noteq> [] then strftime_Y (Date e) = Some yearStr else True) \<and>
     (if monthStr \<noteq> []
      then strftime_m (Date e) =
             Some (if length monthStr = 1 then ''0'' @ monthStr else monthStr)
      else True) \<and>
     (if dayStr \<noteq> []
      then strftime_d (Date e) = Some (if length dayStr = 1 then ''0'' @ dayStr else dayStr)
      else True)"

text \<open>
  \<open>getAllEventsHandler\<close> of \<open>main.go\<close>, the handler of \<open>GET /api/events\<close>.  It
  discards the error of \<open>strconv.Atoi\<close> and looks at the value only.  The response is
  the page of rows with the pagination data; the handler relates a request to every
  response the query may give.
\<close>

inductive getAllEventsHandler ::
  "DB \<Rightarrow> string \<Rightarrow> string \<Rightarrow> string \<Rightarrow> string \<Rightarrow> string \<Rightarrow>
   (Event list \<times> PaginationData) Response \<Rightarrow> bool"
  for db pageStr limitStr yearStr monthStr dayStr
where
  "page = (if fst (Atoi (Query pageStr ''1'')) < 1 then 1 else fst (Atoi (Query pageStr ''1''))) \<Longrightarrow>
   limit = (if fst (Atoi (Query limitStr ''20'')) < 1 then 20 else fst (Atoi (Query limitStr ''20''))) \<Longrightarrow>
   offset = wrap64 ((page - 1) * limit) \<Longrightarrow>
   matching = filter (getAllEvents_where yearStr monthStr dayStr) (events db) \<Longrightarrow>
   totalEvents = int (length matching) \<Longrightarrow>
   sql_order_by date_desc matching ordered \<Longrightarrow>
   totalPages = quot (wrap64 (wrap64 (totalEvents + limit) - 1)) limit \<Longrightarrow>
   getAllEventsHandler db pageStr limitStr yearStr monthStr dayStr
     (Status200 (limit_offset limit offset ordered,
        \<lparr>CurrentPage = page, PerPage = limit, Total = totalEvents, LastPage = totalPages\<rparr>))"

text \<open>
  The earlier handler of the same route, the function literal registered for
  \<open>/events\<close> in \<open>main\<close> of the older copy of \<open>main.go\<close>.  It checks each filter value
  before it makes a condition of it.
\<close>

definition HasPrefix :: "string \<Rightarrow> string \<Rightarrow> bool" where
  "HasPrefix s p = (take (length p) s = p)"

definition inline_events_where :: "string \<Rightarrow> string \<Rightarrow> string \<Rightarrow> Event \<Rightarrow> bool" where
  "inline_events_where yearStr monthStr dayStr e \<longleftrightarrow>
     (if yearStr \<noteq> [] \<and> snd (Atoi yearStr) = None
      then strftime_Y (Date e) = Some yearStr else True) \<and>
     (if monthStr \<noteq> [] \<and> snd (Atoi monthStr) = None \<and>
         1 \<le> fst (Atoi monthStr) \<and> fst (Atoi monthStr) \<le> 12
      then strftime_m (Date e) =
             Some (if fst (Atoi monthStr) < 10 \<and> \<not> HasPrefix monthStr ''0''
                   then ''0'' @ monthStr else monthStr)
      else True) \<and>
     (if dayStr \<noteq> [] \<and> snd (Atoi dayStr) = None \<and>
         1 \<le> fst (Atoi dayStr) \<and> fst (Atoi dayStr) \<le> 31
      then strftime_d (Date e) =
             Some (if fst (Atoi dayStr) < 10 \<and> \<not> HasPrefix dayStr ''0''
                   then ''0'' @ dayStr else dayStr)
      else True)"

inductive inline_events_handler ::
  "DB \<Rightarrow> string \<Rightarrow> string \<Rightarrow> string \<Rightarrow> string \<Rightarrow> string \<Rightarrow>
   (Event list \<times> PaginationData) Response \<Rightarrow> bool"
  for db pageStr limitStr yearStr monthStr dayStr
where
  "page = (if snd (Atoi (Query pageStr ''1'')) \<noteq> None \<or> fst (Atoi (Query pageStr ''1'')) < 1
           then 1 else fst (Atoi (Query pageStr ''1''))) \<Longrightarrow>
   limit = (if snd (Atoi (Query limitStr ''20'')) \<noteq> None \<or> fst (Atoi (Query limitStr ''20'')) < 1
            then 20 else fst (Atoi (Query limitStr ''20''))) \<Longrightarrow>
   offset = wrap64 ((page - 1) * limit) \<Longrightarrow>
   matching = filter (inline_events_where yearStr monthStr dayStr) (events db) \<Longrightarrow>
   totalEvents = int (length matching) \<Longrightarrow>
   sql_order_by date_desc matching ordered \<Longrightarrow>
   totalPages = (if limit > 0 then quot (wrap64 (wrap64 (totalEvents + limit) - 1)) limit else 0) \<Longrightarrow>
   inline_events_handler db pageStr limitStr yearStr monthStr dayStr
     (Status200 (limit_offset limit offset ordered,
        \<lparr>CurrentPage = page, PerPage = limit, Total = totalEvents, LastPage = totalPages\<rparr>))"

text \<open>
  \<open>getEventsByTagHandler\<close>: the rows whose lowercased \<open>tags\<close> text is \<open>LIKE\<close> the
  lowercased tag between quotation marks and \<open>%\<close> signs.
\<close>

definition searchTerm :: "string \<Rightarrow> string" where
  "searchTerm tagParam = ''%\"'' @ ToLower tagParam @ ''\"%''"

inductive getEventsByTagHandler ::
  "DB \<Rightarrow> string \<Rightarrow> string \<Rightarrow> string \<Rightarrow> (Event list \<times> PaginationData) Response \<Rightarrow> bool"
  for db tagParam pageStr limitStr
where
  no_tag:
  "tagParam = [] \<Longrightarrow>
   getEventsByTagHandler db tagParam pageStr limitStr (Status400 ''Tag parameter is required'')"
| tagged:
  "tagParam \<noteq> [] \<Longrightarrow>
   page = (if snd (Atoi (Query pageStr ''1'')) \<noteq> None \<or> fst (Atoi (Query pageStr ''1'')) < 1
           then 1 else fst (Atoi (Query pageStr ''1''))) \<Longrightarrow>
   limit = (if snd (Atoi (Query limitStr ''20'')) \<noteq> None \<or> fst (Atoi (Query limitStr ''20'')) < 1
            then 20 else fst (Atoi (Query limitStr ''20''))) \<Longrightarrow>
   offset = wrap64 ((page - 1) * limit) \<Longrightarrow>
   matching = filter (\<lambda>e. sql_LIKE (searchTerm tagParam) (sql_LOWER (Tags e))) (events db) \<Longrightarrow>
   totalEvents = int (length matching) \<Longrightarrow>
   sql_order_by date_desc matching ordered \<Longrightarrow>
   totalPages = quot (wrap64 (wrap64 (totalEvents + limit) - 1)) limit \<Longrightarrow>
   getEventsByTagHandler db tagParam pageStr limitStr
     (Status200 (limit_offset limit offset ordered,
        \<lparr>CurrentPage = page, PerPage = limit, Total = totalEvents, LastPage = totalPages\<rparr>))"

section \<open>The tag list\<close>

text \<open>
  What SQLite's JSON functions make of a text: not JSON at all (\<open>json_valid\<close> is 0),
  JSON that is not an array (\<open>json_type\<close> is not \<open>array\<close>), or an array, of which
  \<open>json_each\<close> gives one row per element.  The column \<open>value\<close> of such a row is
  \<open>NULL\<close> for the element \<open>null\<close> and otherwise has a text form: the string itself
  with its escapes resolved, the digits of a number, the JSON text of a nested array or
  object.  The reading of a text is SQLite's and is left open here: the query is modelled
  for any reading \<open>J\<close>.
\<close>

datatype json_elem = JNull | JText string

datatype json_doc = NotJSON | NotArray | JArray "json_elem list"

text \<open>\<open>TRIM(X)\<close> with one argument removes spaces, the byte 32, from both ends.\<close>

definition sql_TRIM :: "string \<Rightarrow> string" where
  "sql_TRIM s = rev (dropWhile (\<lambda>c. c = CHR '' '') (rev (dropWhile (\<lambda>c. c = CHR '' '') s)))"

record TagInfo =
  Tag :: string
  Count :: int

text \<open>
  The rows of the join of \<open>events\<close> with \<open>json_each(e.tags)\<close> that pass the \<open>WHERE\<close>
  clause of the query of \<open>getTagsHandler\<close>, each as its \<open>LOWER(j.value)\<close>.  The column \<open>tags\<close>
  of the Go struct is a string, so a stored row always has a text there; the query treats
  a \<open>NULL\<close> like the empty text.
\<close>

definition each_tag :: "json_elem \<Rightarrow> string list" where
  "each_tag el =
     (case el of
        JNull \<Rightarrow> []
      | JText v \<Rightarrow> if sql_TRIM v \<noteq> [] then [sql_LOWER v] else [])"

definition row_tags :: "(string \<Rightarrow> json_doc) \<Rightarrow> Event \<Rightarrow> string list" where
  "row_tags J e =
     (if Tags e = [] \<or> Tags e = ''[]'' then []
      else case J (Tags e) of
        JArray els \<Rightarrow> concat (map each_tag els)
      | NotArray \<Rightarrow> []
      | NotJSON \<Rightarrow> [])"

text \<open>
  The \<open>SELECT\<close> statement of \<open>getTagsHandler\<close>: it groups those rows by the
  lowercased value, counts each group and orders the groups by the value, which SQLite
  compares byte by byte.
\<close>

definition tag_counts :: "(string \<Rightarrow> json_doc) \<Rightarrow> DB \<Rightarrow> TagInfo list" where
  "tag_counts J db =
     (let tags = concat (map (row_tags J) (events db))
      in map (\<lambda>t. \<lparr>Tag = t, Count = int (count_list tags t)\<rparr>) (sort (remdups tags)))"

text \<open>
  How the driver (go-sqlite3) runs a query text, which may hold several pieces separated
  by semicolons.  It prepares the first piece and runs it; when the rest of the text,
  without the white space around it, is not empty, it closes the rows of that piece
  unread and goes on with the rest.  The rows it hands to the caller are those of the
  last piece.  A piece is a statement, with the rows it selects, or text that holds no
  SQL, such as a comment.  SQLite compiles the latter to no statement at all; reading its
  rows gives no row, or, with some versions of the driver, a row loop that never ends.
  Which of the two is left open (\<open>stepping\<close>).
\<close>

datatype 'a piece = Statement "'a list" | Comment

datatype stepping = Ends | Loops

datatype 'a scanned = Scanned "'a list" | Never

definition rows_of :: "stepping \<Rightarrow> 'a piece \<Rightarrow> 'a scanned" where
  "rows_of st p =
     (case p of
        Statement rows \<Rightarrow> Scanned rows
      | Comment \<Rightarrow> (case st of Ends \<Rightarrow> Scanned [] | Loops \<Rightarrow> Never))"

fun driver_query :: "stepping \<Rightarrow> 'a piece list \<Rightarrow> 'a scanned" where
  "driver_query st [] = rows_of st Comment"
| "driver_query st [p] = rows_of st p"
| "driver_query st (p # q # ps) = driver_query st (q # ps)"

text \<open>
  The text \<open>sqlQuery\<close> of \<open>getTagsHandler\<close>: the \<open>SELECT\<close> statement, which ends
  with \<open>tag ASC;\<close>, and after the semicolon the comment
  \<open>-- Order alphabetically by the (now lowercased) tag\<close>.
\<close>

definition sqlQuery :: "(string \<Rightarrow> json_doc) \<Rightarrow> DB \<Rightarrow> TagInfo piece list" where
  "sqlQuery J db = [Statement (tag_counts J db), Comment]"

text \<open>
  \<open>getTagsHandler\<close>: \<open>db.Raw(sqlQuery).Scan(&result)\<close> and the answer built from
  \<open>result\<close>.  A handler that never answers is \<open>None\<close>.  SQLite refuses nothing in
  this query, so the handler's branch for a failed query is never taken and is left out.
\<close>

definition getTagsHandler ::
  "stepping \<Rightarrow> (string \<Rightarrow> json_doc) \<Rightarrow> DB \<Rightarrow> TagInfo list Response option" where
  "getTagsHandler st J db =
     (case driver_query st (sqlQuery J db) of
        Scanned result \<Rightarrow> Some (Status200 result)
      | Never \<Rightarrow> None)"

section \<open>Requests that write, and what a search reads\<close>

text \<open>
  The index reflects the table when it holds exactly one document per row, with the row's
  id and its current title, description and tags.
\<close>

definition index_reflects :: "Event list \<Rightarrow> fts_index \<Rightarrow> bool" where
  "index_reflects es ix = (case ix of Index ds \<Rightarrow> mset ds = mset (map doc_of es))"

definition fts_synced :: "DB \<Rightarrow> bool" where
  "fts_synced db = (index_reflects (events db) (events_fts db) \<and> distinct (map ID (events db)))"

text \<open>
  The rows of \<open>events e JOIN events_fts fts ON e.id = fts.rowid WHERE events_fts MATCH ?\<close>.
  Whether a document matches a query is decided by FTS5 from the text that was indexed;
  \<open>M\<close> stands for that decision.  A row is in the join when the index holds a matching
  document under the row's id.
\<close>

definition fts_join ::
  "(string \<Rightarrow> string \<times> string \<times> string \<Rightarrow> bool) \<Rightarrow> DB \<Rightarrow> string \<Rightarrow> Event list" where
  "fts_join M db q =
     (case events_fts db of
        Index ds \<Rightarrow> filter (\<lambda>e. list_ex (\<lambda>d. fst d = ID e \<and> M q (snd d)) ds) (events db))"

text \<open>The four writing requests, each with the time it arrives.\<close>

datatype Request =
    Create "Event option"
  | BatchCreate "Event list option"
  | Update string "Update option"
  | Delete string

fun handle :: "Time \<Rightarrow> Request \<Rightarrow> DB \<Rightarrow> DB" where
  "handle now (Create body) db = snd (createEventHandler now db body)"
| "handle now (BatchCreate body) db = snd (batchCreateEventsHandler now db body)"
| "handle now (Update idstr body) db = snd (updateEventHandler now db idstr body)"
| "handle now (Delete idstr) db = snd (deleteEventHandler db idstr)"

fun run :: "(Time \<times> Request) list \<Rightarrow> DB \<Rightarrow> DB" where
  "run [] db = db"
| "run ((now, req) # reqs) db = run reqs (handle now req db)"

section \<open>Full-text search\<close>

text \<open>
  The handler's "sanitizing" of the query: \<open>strings.ReplaceAll(query, "\"", "\"\"")\<close>
  writes every quotation mark twice and leaves every other character as it is.
\<close>

definition sanitizeFTS :: "string \<Rightarrow> string" where
  "sanitizeFTS query = concat (map (\<lambda>c. if c = CHR 0x22 then [CHR 0x22, CHR 0x22] else [c]) query)"

text \<open>
  How FTS5 splits a \<open>MATCH\<close> expression into quoted strings and the rest.  A string
  starts at a quotation mark and ends at the next quotation mark that is not doubled; a
  doubled one inside a string stands for one quotation mark of the text.  Characters
  inside a string are text to search for.  Characters outside are read by the query
  grammar: barewords, the operators \<open>AND\<close>, \<open>OR\<close>, \<open>NOT\<close> and \<open>NEAR\<close>, and the
  signs \<open>*\<close>, \<open>:\<close>, \<open>^\<close>, \<open>+\<close>, \<open>-\<close>, parentheses and braces.
  \<open>outside_strings\<close> keeps the characters outside; the flag says whether the scan is
  inside a string.
\<close>

fun outside_strings :: "bool \<Rightarrow> string \<Rightarrow> string" where
  "outside_strings inside [] = []"
| "outside_strings False (c # cs) =
     (if c = CHR 0x22 then outside_strings True cs else c # outside_strings False cs)"
| "outside_strings True [c] = []"
| "outside_strings True (c # d # cs) =
     (if c = CHR 0x22 \<and> d = CHR 0x22 then outside_strings True cs
      else if c = CHR 0x22 then outside_strings False (d # cs)
      else outside_strings True (d # cs))"

text \<open>
  The two statements of \<open>ftsSearchHandler\<close>.  FTS5 decides two things for them, which
  are parameters here: whether it accepts the \<open>MATCH\<close> expression at all
  (\<open>accepts\<close>; a syntax error fails the statement) and which indexed documents match
  (\<open>M\<close>).

  \<open>countSQL\<close> counts the rows of the join of \<open>events\<close> with the matching documents.

  \<open>searchSQL\<close> is to select those rows, \<open>ORDER BY fts.rank LIMIT ? OFFSET ?\<close>.  In
  its list of columns it names \<open>e.references\<close> without quotation marks.
  \<open>REFERENCES\<close> is a reserved word of SQLite's grammar, so the text is no statement:
  preparing it fails with \<open>near "references": syntax error\<close>, whatever the arguments
  and whatever the database holds.
\<close>

definition countSQL ::
  "(string \<Rightarrow> bool) \<Rightarrow> (string \<Rightarrow> string \<times> string \<times> string \<Rightarrow> bool) \<Rightarrow> DB \<Rightarrow> string \<Rightarrow>
   GormError + int" where
  "countSQL accepts M db sanitizedQuery =
     (if accepts sanitizedQuery then Inr (int (length (fts_join M db sanitizedQuery)))
      else Inl ErrSQL)"

definition searchSQL :: "DB \<Rightarrow> string \<Rightarrow> int \<Rightarrow> int \<Rightarrow> GormError + Event list" where
  "searchSQL db sanitizedQuery limit offset = Inl ErrSQL"

text \<open>
  \<open>ftsSearchHandler\<close>, with the page and page size read as in the other handlers.
\<close>

definition ftsSearchHandler ::
  "(string \<Rightarrow> bool) \<Rightarrow> (string \<Rightarrow> string \<times> string \<times> string \<Rightarrow> bool) \<Rightarrow>
   DB \<Rightarrow> string \<Rightarrow> string \<Rightarrow> string \<Rightarrow> (Event list \<times> PaginationData) Response" where
  "ftsSearchHandler accepts M db query pageStr limitStr =
     (if query = [] then Status400 ''Search query is required''
      else
        let page = (case Atoi (Query pageStr ''1'') of
                      (v, Some err) \<Rightarrow> 1
                    | (v, None) \<Rightarrow> if v < 1 then 1 else v);
            limit = (case Atoi (Query limitStr ''20'') of
                       (v, Some err) \<Rightarrow> 20
                     | (v, None) \<Rightarrow> if v < 1 then 20 else v);
            offset = wrap64 ((page - 1) * limit);
            sanitizedQuery = sanitizeFTS query
        in case countSQL accepts M db sanitizedQuery of
             Inl err \<Rightarrow> Status500 ''Failed to count search results''
           | Inr totalEvents \<Rightarrow>
               (case searchSQL db sanitizedQuery limit offset of
                  Inl err \<Rightarrow> Status500 ''Failed to execute search''
                | Inr evs \<Rightarrow>
                    let totalPages = quot (wrap64 (wrap64 (totalEvents + limit) - 1)) limit
                    in Status200 (evs,
                         \<lparr>CurrentPage = page, PerPage = limit, Total = totalEvents,
                          LastPage = totalPages\<rparr>)))"

section \<open>Properties the claims name\<close>

text \<open>
  A record whose id and timestamps come from storage: the id is the next one SQLite's
  \<open>AUTOINCREMENT\<close> gives, and both timestamps are the time of the insert.
\<close>

definition storage_assigned :: "Time \<Rightarrow> DB \<Rightarrow> Event \<Rightarrow> bool" where
  "storage_assigned now db new \<longleftrightarrow>
     ID new = Suc (max (seq db) (max_id (events db))) \<and>
     CreatedAt new = now \<and> UpdatedAt new = now"

text \<open>
  The tag match of the specification: the lowercased tag, between quotation marks, occurs
  as a substring of the lowercased raw text of the \<open>tags\<close> column.
\<close>

definition quoted_tag_occurs :: "string \<Rightarrow> string \<Rightarrow> bool" where
  "quoted_tag_occurs tag raw = sublist (''\"'' @ ToLower tag @ ''\"'') (sql_LOWER raw)"


section \<open>Sample data\<close>

text \<open>Times, events and databases the examples below are evaluated on.\<close>

definition zero_time :: Time where
  "zero_time = \<lparr>year = 1, month = 1, day = 1, clock = 0\<rparr>"

definition t2009 :: Time where
  "t2009 = \<lparr>year = 2009, month = 1, day = 3, clock = 0\<rparr>"

definition t2010 :: Time where
  "t2010 = \<lparr>year = 2010, month = 5, day = 22, clock = 0\<rparr>"

definition t2021 :: Time where
  "t2021 = \<lparr>year = 2021, month = 6, day = 9, clock = 0\<rparr>"

definition t2025 :: Time where
  "t2025 = \<lparr>year = 2025, month = 5, day = 26, clock = 61200000000000\<rparr>"

definition genesis :: Event where
  "genesis =
     \<lparr>ID = 0, Date = t2009, Title = ''Genesis block'', Description = ''The first block'',
      Tags = ''[\"first\",\"block\"]'', Media = [], References = [],
      CreatedAt = zero_time, UpdatedAt = zero_time\<rparr>"

definition pizza :: Event where
  "pizza =
     \<lparr>ID = 0, Date = t2010, Title = ''Pizza Day'', Description = [],
      Tags = ''[\"first\",\"adoption\"]'', Media = [], References = [],
      CreatedAt = zero_time, UpdatedAt = zero_time\<rparr>"

definition untitled :: Event where
  "untitled =
     \<lparr>ID = 0, Date = zero_time, Title = [], Description = [], Tags = [], Media = [],
      References = [], CreatedAt = zero_time, UpdatedAt = zero_time\<rparr>"

definition no_change :: Update where
  "no_change =
     \<lparr>u_id = None, u_date = None, u_title = None, u_description = None, u_tags = None,
      u_media = None, u_references = None, u_created_at = None, u_updated_at = None\<rparr>"

text \<open>
  A table with one event of 2021, and a table with the genesis and the pizza event.
\<close>

definition taproot :: Event where
  "taproot =
     \<lparr>ID = 1, Date = t2021, Title = ''Taproot locked in'', Description = [],
      Tags = ''[\"taproot\"]'', Media = [], References = [],
      CreatedAt = t2025, UpdatedAt = t2025\<rparr>"

definition db_2021 :: DB where
  "db_2021 = \<lparr>events = [taproot], events_fts = Index [doc_of taproot], seq = 1\<rparr>"

definition genesis_row :: Event where
  "genesis_row = genesis\<lparr>ID := 1, CreatedAt := t2025, UpdatedAt := t2025\<rparr>"

definition pizza_row :: Event where
  "pizza_row = pizza\<lparr>ID := 2, CreatedAt := t2025, UpdatedAt := t2025\<rparr>"

definition db_two :: DB where
  "db_two =
     \<lparr>events = [genesis_row, pizza_row],
      events_fts = Index [doc_of genesis_row, doc_of pizza_row], seq = 2\<rparr>"

text \<open>A table with one event, tagged \<open>el-salvador\<close>.\<close>

definition legal_tender :: Event where
  "legal_tender =
     \<lparr>ID = 1, Date = t2021, Title = ''Legal tender'', Description = [],
      Tags = ''[\"el-salvador\"]'', Media = [], References = [],
      CreatedAt = t2025, UpdatedAt = t2025\<rparr>"

definition db_tagged :: DB where
  "db_tagged = \<lparr>events = [legal_tender], events_fts = Index [doc_of legal_tender], seq = 1\<rparr>"

text \<open>
  The reading of the JSON texts of the examples: an array with the one string that holds a
  tab character, and an array with one tag in two spellings.
\<close>

definition sample_json :: "string \<Rightarrow> json_doc" where
  "sample_json s =
     (if s = (''[\"'' @ [CHR 0x5C] @ ''t\"]'') then JArray [JText [CHR 0x09]]
      else if s = ''[\"Lightning\",\"lightning\"]'' then JArray [JText ''Lightning'', JText ''lightning'']
      else if s = ''{\"a\":1}'' then NotArray
      else NotJSON)"

definition tab_tagged :: Event where
  "tab_tagged = taproot\<lparr>Tags := (''[\"'' @ [CHR 0x5C] @ ''t\"]'')\<rparr>"

definition twice_tagged :: Event where
  "twice_tagged = taproot\<lparr>Tags := ''[\"Lightning\",\"lightning\"]''\<rparr>"




text \<open>
  A database file from before the index existed, with the genesis event in its table, the
  same file with the largest row id in use, and the update that retitles an event.
\<close>

definition legacy_db :: DB where
  "legacy_db = \<lparr>events = [genesis_row], events_fts = Index [], seq = 1\<rparr>"

definition full_db :: DB where
  "full_db =
     \<lparr>events = [genesis_row\<lparr>ID := 9223372036854775807\<rparr>],
      events_fts = Index [doc_of (genesis_row\<lparr>ID := 9223372036854775807\<rparr>)],
      seq = 9223372036854775807\<rparr>"

definition retitle :: Update where
  "retitle = no_change\<lparr>u_title := Some ''Bitcoin Pizza Day''\<rparr>"


section \<open>Theorems\<close>

subsection \<open>Evaluating the listing handlers\<close>

text \<open>
  Facts used by the examples below: what \<open>ORDER BY\<close> admits on small results, and the
  page and page size of a request that names neither.
\<close>

lemma order_by_Nil: "sql_order_by le [] out \<longleftrightarrow> out = []"
  by (auto simp: sql_order_by_def)

lemma order_by_single: "sql_order_by le [a] out \<longleftrightarrow> out = [a]"
  by (auto simp: sql_order_by_def mset_single_iff_right)

lemma mset_pair: "mset out = mset [a, b] \<Longrightarrow> out = [a, b] \<or> out = [b, a]"
proof -
  assume m: "mset out = mset [a, b]"
  from mset_eq_length [OF m] have "length out = Suc (Suc 0)" by simp
  then obtain x y where out: "out = [x, y]"
    by (auto simp: length_Suc_conv)
  with m have "{#x, y#} = {#a, b#}" by simp
  then have "x = a \<and> y = b \<or> x = b \<and> y = a"
    by (auto simp: add_eq_conv_ex)
  with out show ?thesis by auto
qed

lemma order_by_pair:
  "\<not> le a b \<Longrightarrow> le b a \<Longrightarrow> sql_order_by le [a, b] out \<longleftrightarrow> out = [b, a]"
  using mset_pair [of out a b] by (auto simp: sql_order_by_def)

lemmas eval_num = Atoi_def Query_def is_digit_def dec_val_def digit_val_def
  max_int_def min_int_def

lemma getAllEventsHandler_eval:
  assumes "fst (Atoi (Query pageStr ''1'')) = p" and "fst (Atoi (Query limitStr ''20'')) = l"
    and "page = (if p < 1 then 1 else p)" and "limit = (if l < 1 then 20 else l)"
    and "filter (getAllEvents_where yearStr monthStr dayStr) (events db) = matching"
    and "wrap64 ((page - 1) * limit) = offset"
    and "quot (wrap64 (wrap64 (int (length matching) + limit) - 1)) limit = totalPages"
  shows "getAllEventsHandler db pageStr limitStr yearStr monthStr dayStr r \<longleftrightarrow>
   (\<exists>ordered. sql_order_by date_desc matching ordered \<and>
      r = Status200 (limit_offset limit offset ordered,
            \<lparr>CurrentPage = page, PerPage = limit, Total = int (length matching),
             LastPage = totalPages\<rparr>))"
proof
  assume "getAllEventsHandler db pageStr limitStr yearStr monthStr dayStr r"
  then show "\<exists>ordered. sql_order_by date_desc matching ordered \<and>
      r = Status200 (limit_offset limit offset ordered,
            \<lparr>CurrentPage = page, PerPage = limit, Total = int (length matching),
             LastPage = totalPages\<rparr>)"
    using assms by cases blast
next
  assume "\<exists>ordered. sql_order_by date_desc matching ordered \<and>
      r = Status200 (limit_offset limit offset ordered,
            \<lparr>CurrentPage = page, PerPage = limit, Total = int (length matching),
             LastPage = totalPages\<rparr>)"
  then obtain ordered where o: "sql_order_by date_desc matching ordered" and
    r: "r = Status200 (limit_offset limit offset ordered,
            \<lparr>CurrentPage = page, PerPage = limit, Total = int (length matching),
             LastPage = totalPages\<rparr>)" by blast
  show "getAllEventsHandler db pageStr limitStr yearStr monthStr dayStr r"
    unfolding r
    by (rule getAllEventsHandler.intros [where ordered = ordered and matching = matching])
       (use assms o in simp_all)
qed

lemma default_page: "fst (Atoi (Query [] ''1'')) = 1"
  by (simp add: eval_num)

lemma default_limit: "fst (Atoi (Query [] ''20'')) = 20"
  by (simp add: eval_num)

lemma default_page_ok: "Atoi (Query [] ''1'') = (1, None)"
  by (simp add: eval_num)

lemma default_limit_ok: "Atoi (Query [] ''20'') = (20, None)"
  by (simp add: eval_num)

subsection \<open>Listing events\<close>

text \<open>
  Claim C1 does not hold of \<open>getAllEventsHandler\<close> in \<open>main.go\<close>: the handler makes a
  condition of every filter value that is not empty, without looking at it.  On a table
  that holds one event of June 2021, the request \<open>year=2021&month=13\<close> is answered
  with no event and a total of 0, while the same request without the month is answered
  with the event: month 13 is not ignored, it is compared with the month of every row and
  equals none.
\<close>

theorem getAllEventsHandler_month_13:
  "(getAllEventsHandler db_2021 [] [] ''2021'' ''13'' [] r \<longleftrightarrow>
      r = Status200 ([], \<lparr>CurrentPage = 1, PerPage = 20, Total = 0, LastPage = 0\<rparr>)) \<and>
   (getAllEventsHandler db_2021 [] [] ''2021'' [] [] r \<longleftrightarrow>
      r = Status200 ([taproot], \<lparr>CurrentPage = 1, PerPage = 20, Total = 1, LastPage = 1\<rparr>))"
proof -
  have w13: "filter (getAllEvents_where ''2021'' ''13'' []) (events db_2021) = []"
    by (simp add: db_2021_def taproot_def t2021_def getAllEvents_where_def strftime_Y_def
        strftime_m_def strftime_d_def pad2_def digit_char_def)
  have w: "filter (getAllEvents_where ''2021'' [] []) (events db_2021) = [taproot]"
    by (simp add: db_2021_def taproot_def t2021_def getAllEvents_where_def strftime_Y_def
        strftime_m_def strftime_d_def pad2_def digit_char_def)
  have a: "wrap64 ((1 - 1) * 20) = 0"
    "quot (wrap64 (wrap64 (int (length ([]::Event list)) + 20) - 1)) 20 = 0"
    "quot (wrap64 (wrap64 (int (length [taproot]) + 20) - 1)) 20 = 1"
    by (simp_all add: wrap64_def quot_def)
  have "getAllEventsHandler db_2021 [] [] ''2021'' ''13'' [] r \<longleftrightarrow>
      r = Status200 ([], \<lparr>CurrentPage = 1, PerPage = 20, Total = 0, LastPage = 0\<rparr>)"
    by (subst getAllEventsHandler_eval [OF default_page default_limit _ _ w13 a(1) a(2)])
       (simp_all add: order_by_Nil limit_offset_def)
  moreover have "getAllEventsHandler db_2021 [] [] ''2021'' [] [] r \<longleftrightarrow>
      r = Status200 ([taproot], \<lparr>CurrentPage = 1, PerPage = 20, Total = 1, LastPage = 1\<rparr>)"
    by (subst getAllEventsHandler_eval [OF default_page default_limit _ _ w a(1) a(3)])
       (simp_all add: order_by_single limit_offset_def)
  ultimately show ?thesis by (simp only: simp_thms)
qed

text \<open>
  The earlier handler of the route does what the claim says: a year that is not a number,
  or a month or day that is not a number or is out of range, leaves the \<open>WHERE\<close> clause,
  and with it every response, as it is without that parameter.
\<close>

lemma inline_events_where_ignores:
  "snd (Atoi yearStr) \<noteq> None \<Longrightarrow>
     inline_events_where yearStr monthStr dayStr = inline_events_where [] monthStr dayStr"
  "snd (Atoi monthStr) \<noteq> None \<or> fst (Atoi monthStr) < 1 \<or> 12 < fst (Atoi monthStr) \<Longrightarrow>
     inline_events_where yearStr monthStr dayStr = inline_events_where yearStr [] dayStr"
  "snd (Atoi dayStr) \<noteq> None \<or> fst (Atoi dayStr) < 1 \<or> 31 < fst (Atoi dayStr) \<Longrightarrow>
     inline_events_where yearStr monthStr dayStr = inline_events_where yearStr monthStr []"
proof -
  have e: "(([]::string) \<noteq> [] \<and> P) = False" for P
    by simp
  show "inline_events_where yearStr monthStr dayStr = inline_events_where [] monthStr dayStr"
    if "snd (Atoi yearStr) \<noteq> None"
  proof -
    from that have c: "(yearStr \<noteq> [] \<and> snd (Atoi yearStr) = None) = False"
      by simp
    show ?thesis
      by (rule ext) (simp only: inline_events_where_def c e if_False)
  qed
  show "inline_events_where yearStr monthStr dayStr = inline_events_where yearStr [] dayStr"
    if "snd (Atoi monthStr) \<noteq> None \<or> fst (Atoi monthStr) < 1 \<or> 12 < fst (Atoi monthStr)"
  proof -
    from that have c: "(monthStr \<noteq> [] \<and> snd (Atoi monthStr) = None \<and>
         1 \<le> fst (Atoi monthStr) \<and> fst (Atoi monthStr) \<le> 12) = False"
      by auto
    show ?thesis
      by (rule ext) (simp only: inline_events_where_def c e if_False)
  qed
  show "inline_events_where yearStr monthStr dayStr = inline_events_where yearStr monthStr []"
    if "snd (Atoi dayStr) \<noteq> None \<or> fst (Atoi dayStr) < 1 \<or> 31 < fst (Atoi dayStr)"
  proof -
    from that have c: "(dayStr \<noteq> [] \<and> snd (Atoi dayStr) = None \<and>
         1 \<le> fst (Atoi dayStr) \<and> fst (Atoi dayStr) \<le> 31) = False"
      by auto
    show ?thesis
      by (rule ext) (simp only: inline_events_where_def c e if_False)
  qed
qed

lemma inline_events_handler_where:
  assumes "inline_events_where y m d = inline_events_where y' m' d'"
    and "inline_events_handler db p l y m d r"
  shows "inline_events_handler db p l y' m' d' r"
  using assms(2)
proof cases
  case (1 page limit offset matching totalEvents ordered totalPages)
  show ?thesis
    unfolding 1(1)
    by (rule inline_events_handler.intros [where ordered = ordered and matching = matching])
       (use 1 assms(1) in simp_all)
qed

lemma inline_events_handler_ignores:
  "snd (Atoi yearStr) \<noteq> None \<Longrightarrow>
     inline_events_handler db p l yearStr monthStr dayStr r \<longleftrightarrow>
     inline_events_handler db p l [] monthStr dayStr r"
  "snd (Atoi monthStr) \<noteq> None \<or> fst (Atoi monthStr) < 1 \<or> 12 < fst (Atoi monthStr) \<Longrightarrow>
     inline_events_handler db p l yearStr monthStr dayStr r \<longleftrightarrow>
     inline_events_handler db p l yearStr [] dayStr r"
  "snd (Atoi dayStr) \<noteq> None \<or> fst (Atoi dayStr) < 1 \<or> 31 < fst (Atoi dayStr) \<Longrightarrow>
     inline_events_handler db p l yearStr monthStr dayStr r \<longleftrightarrow>
     inline_events_handler db p l yearStr monthStr [] r"
proof -
  show "inline_events_handler db p l yearStr monthStr dayStr r \<longleftrightarrow>
     inline_events_handler db p l [] monthStr dayStr r" if "snd (Atoi yearStr) \<noteq> None"
    using inline_events_where_ignores(1) [OF that, of monthStr dayStr]
      inline_events_handler_where [of yearStr monthStr dayStr "[]" monthStr dayStr db p l r]
      inline_events_handler_where [of "[]" monthStr dayStr yearStr monthStr dayStr db p l r]
    by (simp only:) blast
  show "inline_events_handler db p l yearStr monthStr dayStr r \<longleftrightarrow>
     inline_events_handler db p l yearStr [] dayStr r"
    if "snd (Atoi monthStr) \<noteq> None \<or> fst (Atoi monthStr) < 1 \<or> 12 < fst (Atoi monthStr)"
    using inline_events_where_ignores(2) [OF that, of yearStr dayStr]
      inline_events_handler_where [of yearStr monthStr dayStr yearStr "[]" dayStr db p l r]
      inline_events_handler_where [of yearStr "[]" dayStr yearStr monthStr dayStr db p l r]
    by (simp only:) blast
  show "inline_events_handler db p l yearStr monthStr dayStr r \<longleftrightarrow>
     inline_events_handler db p l yearStr monthStr [] r"
    if "snd (Atoi dayStr) \<noteq> None \<or> fst (Atoi dayStr) < 1 \<or> 31 < fst (Atoi dayStr)"
    using inline_events_where_ignores(3) [OF that, of yearStr monthStr]
      inline_events_handler_where [of yearStr monthStr dayStr yearStr monthStr "[]" db p l r]
      inline_events_handler_where [of yearStr monthStr "[]" yearStr monthStr dayStr db p l r]
    by (simp only:) blast
qed


subsection \<open>The index follows the table\<close>

lemma after_insert_Index:
  "events_after_insert new (Index ds) = Index (ds @ [doc_of new])"
  by (simp add: events_after_insert_def fts_insert_def)

lemma after_delete_Index:
  "doc_of old \<in> set ds \<Longrightarrow>
   events_after_delete old (Index ds) = Some (Index (remove1 (doc_of old) ds))"
  by (simp add: events_after_delete_def fts_delete_def)

lemma after_update_Index:
  "doc_of old \<in> set ds \<Longrightarrow>
   events_after_update old new (Index ds) = Some (Index (remove1 (doc_of old) ds @ [doc_of new]))"
  by (simp add: events_after_update_def fts_delete_def fts_insert_def)

lemma delete_rows_frame:
  "mset ds = mset (map doc_of es) + X \<Longrightarrow>
   \<exists>ds'. delete_rows i es (Index ds) = Some (filter (\<lambda>e. ID e \<noteq> i) es, Index ds') \<and>
         mset ds' = mset (map doc_of (filter (\<lambda>e. ID e \<noteq> i) es)) + X"
proof (induction es arbitrary: ds X)
  case Nil
  then show ?case by simp
next
  case (Cons e es)
  show ?case
  proof (cases "ID e = i")
    case True
    from Cons.prems have "doc_of e \<in># mset ds" by simp
    then have mem: "doc_of e \<in> set ds" by simp
    from Cons.prems have "mset (remove1 (doc_of e) ds) = mset (map doc_of es) + X"
      by simp
    from Cons.IH [OF this] True mem show ?thesis
      by (simp add: after_delete_Index)
  next
    case False
    from Cons.prems have "mset ds = mset (map doc_of es) + (X + {#doc_of e#})"
      by simp
    from Cons.IH [OF this] False show ?thesis
      by auto
  qed
qed

lemma update_rows_frame:
  "mset ds = mset (map doc_of es) + X \<Longrightarrow>
   \<exists>ds'. update_rows now u i es (Index ds) =
           Some (map (\<lambda>e. if ID e = i then apply_update now u e else e) es, Index ds') \<and>
         mset ds' = mset (map doc_of (map (\<lambda>e. if ID e = i then apply_update now u e else e) es)) + X"
proof (induction es arbitrary: ds X)
  case Nil
  then show ?case by simp
next
  case (Cons e es)
  show ?case
  proof (cases "ID e = i")
    case True
    from Cons.prems have "doc_of e \<in># mset ds" by simp
    then have mem: "doc_of e \<in> set ds" by simp
    from Cons.prems have
      "mset (remove1 (doc_of e) ds @ [doc_of (apply_update now u e)]) =
       mset (map doc_of es) + (X + {#doc_of (apply_update now u e)#})"
      by simp
    from Cons.IH [OF this] True mem show ?thesis
      by (auto simp: after_update_Index)
  next
    case False
    from Cons.prems have "mset ds = mset (map doc_of es) + (X + {#doc_of e#})"
      by simp
    from Cons.IH [OF this] False show ?thesis
      by auto
  qed
qed

lemma distinct_rename:
  "distinct xs \<Longrightarrow> j \<notin> set xs \<Longrightarrow> distinct (map (\<lambda>x. if x = i then j else x) xs)"
  by (induction xs) auto

lemma rename_absent: "i \<notin> set xs \<Longrightarrow> map (\<lambda>x. if x = i then j else x) xs = xs"
  by (induction xs) auto

lemma rename_same: "map (\<lambda>x. if x = i then i else x) xs = xs"
  by (induction xs) auto

lemma ID_apply_update: "ID (apply_update now u e) = or_else (u_id u) (ID e)"
  by (simp add: apply_update_def)

lemma updated_ids:
  "map ID (map (\<lambda>e. if ID e = i then apply_update now u e else e) es) =
   map (\<lambda>x. if x = i then or_else (u_id u) i else x) (map ID es)"
  by (induction es) (auto simp: ID_apply_update)

lemma synced_Create:
  assumes "fts_synced db" and "db_Create now e db = Inr (new, db')"
  shows "fts_synced db'"
proof -
  from assms(1) obtain ds where ix: "events_fts db = Index ds"
    and ms: "mset ds = mset (map doc_of (events db))" and d: "distinct (map ID (events db))"
    by (auto simp: fts_synced_def index_reflects_def split: fts_index.splits)
  from assms(2) have ev: "events db' = events db @ [new]"
    and fresh: "ID new \<notin> set (map ID (events db))"
    and ix': "events_fts db' = events_after_insert new (events_fts db)"
    by (auto simp: db_Create_def Let_def split: if_splits)
  from ix ix' ms ev d fresh show ?thesis
    by (simp add: fts_synced_def index_reflects_def after_insert_Index)
qed

lemma synced_insert_rows:
  "fts_synced db \<Longrightarrow> insert_rows now evs db = Inr (news, db') \<Longrightarrow> fts_synced db'"
proof (induction evs arbitrary: db news)
  case Nil
  then show ?case by simp
next
  case (Cons e evs)
  from Cons.prems(2) obtain new db1 news1 where
    c: "db_Create now e db = Inr (new, db1)" and
    r: "insert_rows now evs db1 = Inr (news1, db')"
    by (auto split: sum.splits)
  from synced_Create [OF Cons.prems(1) c] have "fts_synced db1" .
  from Cons.IH [OF this r] show ?case .
qed

lemma synced_CreateAll:
  "fts_synced db \<Longrightarrow> db_CreateAll now evs db = Inr (news, db') \<Longrightarrow> fts_synced db'"
  using synced_insert_rows [of db now evs news db']
  by (simp add: db_CreateAll_def split: if_splits)

lemma synced_Delete:
  assumes "fts_synced db"
  shows "\<exists>db'. db_Delete i db = Inr (length (filter (\<lambda>e. ID e = i) (events db)), db') \<and>
           fts_synced db' \<and> events db' = filter (\<lambda>e. ID e \<noteq> i) (events db)"
proof -
  from assms obtain ds where ix: "events_fts db = Index ds"
    and ms: "mset ds = mset (map doc_of (events db)) + {#}" and d: "distinct (map ID (events db))"
    by (auto simp: fts_synced_def index_reflects_def split: fts_index.splits)
  from delete_rows_frame [OF ms, of i] obtain ds' where
    "delete_rows i (events db) (Index ds) = Some (filter (\<lambda>e. ID e \<noteq> i) (events db), Index ds')"
    "mset ds' = mset (map doc_of (filter (\<lambda>e. ID e \<noteq> i) (events db)))"
    by auto
  with ix d show ?thesis
    by (simp add: db_Delete_def fts_synced_def index_reflects_def distinct_map_filter)
qed

lemma synced_Updates:
  assumes "fts_synced db" and "db_Updates now i u db = Inr db'"
  shows "fts_synced db' \<and>
         events db' = map (\<lambda>e. if ID e = i then apply_update now u e else e) (events db)"
proof -
  let ?es' = "map (\<lambda>e. if ID e = i then apply_update now u e else e) (events db)"
  from assms(1) obtain ds where ix: "events_fts db = Index ds"
    and ms: "mset ds = mset (map doc_of (events db)) + {#}" and d: "distinct (map ID (events db))"
    by (auto simp: fts_synced_def index_reflects_def split: fts_index.splits)
  from update_rows_frame [OF ms, of now u i] obtain ds' where
    ur: "update_rows now u i (events db) (Index ds) = Some (?es', Index ds')" and
    ms': "mset ds' = mset (map doc_of ?es')"
    by auto
  from assms(2) ur ix have db': "db' = db\<lparr>events := ?es', events_fts := Index ds'\<rparr>"
    by (auto simp: db_Updates_def split: option.splits if_splits)
  have "distinct (map ID ?es')"
  proof (cases "u_id u")
    case None
    have "map ID ?es' = map (\<lambda>x. if x = i then or_else (u_id u) i else x) (map ID (events db))"
      by (rule updated_ids)
    with None have "map ID ?es' = map ID (events db)"
      by (simp only: or_else_def option.case rename_same)
    with d show ?thesis by (simp only:)
  next
    case (Some j)
    have "map ID ?es' = map (\<lambda>x. if x = i then or_else (u_id u) i else x) (map ID (events db))"
      by (rule updated_ids)
    with Some have ids: "map ID ?es' = map (\<lambda>x. if x = i then j else x) (map ID (events db))"
      by (simp only: or_else_def option.case)
    show ?thesis
    proof (cases "j = i \<or> i \<notin> set (map ID (events db))")
      case True
      then have "map (\<lambda>x. if x = i then j else x) (map ID (events db)) = map ID (events db)"
        using rename_absent [of i "map ID (events db)" j] rename_same [of i "map ID (events db)"]
        by auto
      with ids d show ?thesis by (simp only:)
    next
      case False
      with assms(2) Some have "j \<notin> set (map ID (events db))"
        by (auto simp: db_Updates_def split: if_splits)
      from distinct_rename [OF d this] ids show ?thesis by (simp only:)
    qed
  qed
  with db' ms' show ?thesis
    by (simp add: fts_synced_def index_reflects_def)
qed

lemma synced_handle: "fts_synced db \<Longrightarrow> fts_synced (handle now req db)"
proof (cases req)
  case (Create body)
  assume s: "fts_synced db"
  show ?thesis
  proof (cases body)
    case None
    with s Create show ?thesis by (simp add: createEventHandler_def)
  next
    case (Some e)
    with s Create synced_Create [OF s, of now e] show ?thesis
      by (auto simp: createEventHandler_def split: sum.splits)
  qed
next
  case (BatchCreate body)
  assume s: "fts_synced db"
  show ?thesis
  proof (cases body)
    case None
    with s BatchCreate show ?thesis by (simp add: batchCreateEventsHandler_def)
  next
    case (Some evs)
    with s BatchCreate synced_CreateAll [OF s, of now evs] show ?thesis
      by (auto simp: batchCreateEventsHandler_def split: sum.splits)
  qed
next
  case (Update idstr body)
  assume s: "fts_synced db"
  with Update synced_Updates [OF s] show ?thesis
    by (auto simp: updateEventHandler_def split: prod.splits option.splits sum.splits GormError.splits)
next
  case (Delete idstr)
  assume s: "fts_synced db"
  from synced_Delete [OF s, of "fst (ParseUint32 idstr)"] obtain db' where
    dl: "db_Delete (fst (ParseUint32 idstr)) db =
           Inr (length (filter (\<lambda>e. ID e = fst (ParseUint32 idstr)) (events db)), db')"
    and s': "fts_synced db'"
    by blast
  with s Delete show ?thesis
    by (auto simp: deleteEventHandler_def split: prod.splits option.splits)
qed

lemma synced_run: "fts_synced db \<Longrightarrow> fts_synced (run reqs db)"
  by (induction reqs arbitrary: db) (auto simp: synced_handle)

lemma synced_join:
  assumes "fts_synced db"
  shows "fts_join M db q = filter (\<lambda>e. M q (Title e, Description e, Tags e)) (events db)"
proof -
  from assms obtain ds where ix: "events_fts db = Index ds"
    and ms: "mset ds = mset (map doc_of (events db))" and d: "distinct (map ID (events db))"
    by (auto simp: fts_synced_def index_reflects_def split: fts_index.splits)
  from ms have st: "set ds = doc_of ` set (events db)"
    by (metis set_map set_mset_mset)
  have "list_ex (\<lambda>d. fst d = ID e \<and> M q (snd d)) ds \<longleftrightarrow> M q (Title e, Description e, Tags e)"
    if e: "e \<in> set (events db)" for e
  proof
    assume "list_ex (\<lambda>d. fst d = ID e \<and> M q (snd d)) ds"
    then obtain e' where e': "e' \<in> set (events db)" and i: "ID e' = ID e"
      and m: "M q (snd (doc_of e'))"
      using st by (auto simp: list_ex_iff doc_of_def)
    from d e e' i have "e' = e"
      by (meson distinct_map inj_on_def)
    with m show "M q (Title e, Description e, Tags e)" by (simp add: doc_of_def)
  next
    assume "M q (Title e, Description e, Tags e)"
    with e st show "list_ex (\<lambda>d. fst d = ID e \<and> M q (snd d)) ds"
      by (auto simp: list_ex_iff doc_of_def intro!: bexI [of _ "doc_of e"])
  qed
  then have "filter (\<lambda>e. list_ex (\<lambda>d. fst d = ID e \<and> M q (snd d)) ds) (events db) =
             filter (\<lambda>e. M q (Title e, Description e, Tags e)) (events db)"
    by (auto intro: filter_cong)
  with ix show ?thesis by (simp add: fts_join_def)
qed

lemma db_First_Inr: "db_First db i = Inr e \<Longrightarrow> e \<in> set (events db) \<and> ID e = i"
  by (auto simp: db_First_def find_Some_iff split: option.splits)

text \<open>
  The triggers do their part: from a database whose index reflects its table (a new
  database does), every sequence of create, batch-create, update and delete requests
  leaves a database whose index reflects its table, and the join of the two search
  statements then holds exactly the rows whose current text matches.
\<close>

lemma synced_fresh_db: "fts_synced fresh_db"
  by (simp add: fts_synced_def index_reflects_def fresh_db_def)

lemma synced_run_join:
  "fts_synced db \<Longrightarrow>
   fts_join M (run reqs db) q =
     filter (\<lambda>e. M q (Title e, Description e, Tags e)) (events (run reqs db))"
  by (rule synced_join) (rule synced_run)

text \<open>
  The "initial population" of \<open>InitDB\<close> never runs: the two counts it compares are the
  same number.  So the rows a database file held before the index was created, as the
  earlier \<open>InitDB\<close> of the repository left them, are never indexed: the join of the
  search statements has none of them, and a request to delete or to update one of them
  fails in the trigger and is answered with status 500.
\<close>

lemma InitDB_no_backfill: "InitDB db = db"
  by (simp add: InitDB_def Let_def)

lemma InitDB_legacy_db:
  "fts_join M (InitDB legacy_db) q = [] \<and>
   deleteEventHandler (InitDB legacy_db) ''1'' = (Status500 ''Failed to delete event'', legacy_db) \<and>
   updateEventHandler now (InitDB legacy_db) ''1'' (Some retitle) =
     (Status500 ''Failed to update event'', legacy_db)"
  by (simp add: InitDB_no_backfill fts_join_def legacy_db_def deleteEventHandler_def
      updateEventHandler_def db_Delete_def db_Updates_def db_First_def ParseUint32_def
      is_digit_def dec_val_def digit_val_def genesis_row_def genesis_def retitle_def
      no_change_def events_after_delete_def events_after_update_def fts_delete_def doc_of_def)

lemma ftsSearchHandler_eval:
  "ftsSearchHandler accepts M db query pageStr limitStr =
     (if query = [] then Status400 ''Search query is required''
      else if accepts (sanitizeFTS query) then Status500 ''Failed to execute search''
      else Status500 ''Failed to count search results'')"
  by (simp add: ftsSearchHandler_def countSQL_def searchSQL_def Let_def)

text \<open>
  Claim C2 fails at the search itself.  On a new database the pizza event is created and
  then retitled \<open>Bitcoin Pizza Day\<close>.  The table holds the retitled event and the index
  holds its new text, so the count statement of \<open>ftsSearchHandler\<close> counts it whenever
  FTS5 matches the query against that text; but the statement that is to return it is
  refused by SQLite, and the search for \<open>Bitcoin\<close> is answered with status 500,
  whatever FTS5 makes of the query.  The claim says that the updated event is found by its
  new text.
\<close>

theorem ftsSearchHandler_after_update:
  "events (run [(t2025, Create (Some pizza)), (t2025, Update ''1'' (Some retitle))] fresh_db) =
     [pizza\<lparr>ID := 1, Title := ''Bitcoin Pizza Day'', CreatedAt := t2025, UpdatedAt := t2025\<rparr>] \<and>
   events_fts (run [(t2025, Create (Some pizza)), (t2025, Update ''1'' (Some retitle))] fresh_db) =
     Index [(1, ''Bitcoin Pizza Day'', [], ''[\"first\",\"adoption\"]'')] \<and>
   countSQL accepts M
     (run [(t2025, Create (Some pizza)), (t2025, Update ''1'' (Some retitle))] fresh_db)
     (sanitizeFTS ''Bitcoin'') =
     (if accepts ''Bitcoin''
      then Inr (if M ''Bitcoin'' (''Bitcoin Pizza Day'', [], ''[\"first\",\"adoption\"]'')
                then 1 else 0)
      else Inl ErrSQL) \<and>
   ftsSearchHandler accepts M
     (run [(t2025, Create (Some pizza)), (t2025, Update ''1'' (Some retitle))] fresh_db)
     ''Bitcoin'' [] [] =
     (if accepts ''Bitcoin'' then Status500 ''Failed to execute search''
      else Status500 ''Failed to count search results'')"
proof -
  let ?db = "run [(t2025, Create (Some pizza)), (t2025, Update ''1'' (Some retitle))] fresh_db"
  have db: "?db =
     \<lparr>events = [pizza\<lparr>ID := 1, Title := ''Bitcoin Pizza Day'', CreatedAt := t2025,
                       UpdatedAt := t2025\<rparr>],
      events_fts = Index [(1, ''Bitcoin Pizza Day'', [], ''[\"first\",\"adoption\"]'')],
      seq = 1\<rparr>"
    by (simp add: createEventHandler_def updateEventHandler_def db_Create_def db_Updates_def
        db_First_def ParseUint32_def is_digit_def dec_val_def digit_val_def fresh_db_def
        pizza_def no_change_def retitle_def t2010_def t2025_def zero_time_def IsZero_def
        stamp_def max_id_def max_rowid_def Let_def apply_update_def or_else_def
        events_after_insert_def events_after_update_def fts_insert_def fts_delete_def doc_of_def)
  have e: "events ?db =
     [pizza\<lparr>ID := 1, Title := ''Bitcoin Pizza Day'', CreatedAt := t2025, UpdatedAt := t2025\<rparr>]"
    unfolding db by simp
  have i: "events_fts ?db = Index [(1, ''Bitcoin Pizza Day'', [], ''[\"first\",\"adoption\"]'')]"
    unfolding db by simp
  have s: "sanitizeFTS ''Bitcoin'' = ''Bitcoin''"
    by (simp add: sanitizeFTS_def)
  have c: "countSQL accepts M ?db (sanitizeFTS ''Bitcoin'') =
     (if accepts ''Bitcoin''
      then Inr (if M ''Bitcoin'' (''Bitcoin Pizza Day'', [], ''[\"first\",\"adoption\"]'')
                then 1 else 0)
      else Inl ErrSQL)"
    unfolding db s by (simp add: countSQL_def fts_join_def)
  have h: "ftsSearchHandler accepts M ?db ''Bitcoin'' [] [] =
     (if accepts ''Bitcoin'' then Status500 ''Failed to execute search''
      else Status500 ''Failed to count search results'')"
    unfolding ftsSearchHandler_eval s by simp
  show ?thesis
    by (intro conjI) (rule e, rule i, rule c, rule h)
qed
subsection \<open>Pagination\<close>

lemma wrap64_in_range: "min_int \<le> x \<Longrightarrow> x \<le> max_int \<Longrightarrow> wrap64 x = x"
  by (simp add: wrap64_def min_int_def max_int_def)

lemma quot_nonneg: "0 \<le> a \<Longrightarrow> 0 < b \<Longrightarrow> quot a b = a div b"
  by (cases "a = 0") (simp_all add: quot_def)

text \<open>
  Within the range of \<open>int\<close> the pagination arithmetic of the handlers is the one of the
  specification: the offset is \<open>(page - 1) * limit\<close>, and the number of pages \<open>k\<close> is
  the ceiling of \<open>total / limit\<close>, the number with \<open>(k - 1) * limit < total \<le> k * limit\<close>.
\<close>

lemma offset_in_range:
  "1 \<le> page \<Longrightarrow> 1 \<le> limit \<Longrightarrow> (page - 1) * limit \<le> max_int \<Longrightarrow>
   wrap64 ((page - 1) * limit) = (page - 1) * limit"
proof (rule wrap64_in_range)
  assume "1 \<le> page" "1 \<le> limit"
  then have "0 \<le> (page - 1) * limit" by (intro mult_nonneg_nonneg) simp_all
  then show "min_int \<le> (page - 1) * limit" by (simp add: min_int_def)
qed

lemma total_pages_in_range:
  assumes "0 \<le> cnt" and "1 \<le> limit" and "cnt + limit \<le> max_int"
  shows "quot (wrap64 (wrap64 (cnt + limit) - 1)) limit = (cnt + limit - 1) div limit"
    and "((cnt + limit - 1) div limit - 1) * limit < cnt"
    and "cnt \<le> ((cnt + limit - 1) div limit) * limit"
proof -
  from assms have "wrap64 (cnt + limit) = cnt + limit"
    by (intro wrap64_in_range) (simp_all add: min_int_def)
  moreover from assms have "wrap64 (cnt + limit - 1) = cnt + limit - 1"
    by (intro wrap64_in_range) (simp_all add: min_int_def)
  ultimately show "quot (wrap64 (wrap64 (cnt + limit) - 1)) limit = (cnt + limit - 1) div limit"
    using assms by (simp add: quot_nonneg)
  let ?k = "(cnt + limit - 1) div limit"
  from assms have l: "0 < limit" by simp
  have d: "cnt + limit - 1 = ?k * limit + (cnt + limit - 1) mod limit"
    by simp
  from l have m: "0 \<le> (cnt + limit - 1) mod limit" "(cnt + limit - 1) mod limit < limit"
    by simp_all
  have e: "(?k - 1) * limit = ?k * limit - limit"
    by (simp add: algebra_simps)
  from d m show "(?k - 1) * limit < cnt"
    unfolding e by linarith
  from d m show "cnt \<le> ?k * limit"
    by linarith
qed

lemma Atoi_syntax_error: "snd (Atoi s) = Some ErrSyntax \<Longrightarrow> fst (Atoi s) = 0"
  by (auto simp: Atoi_def Let_def split: prod.splits if_splits)

text \<open>
  The page and the page size of a response: a parameter that \<open>strconv.Atoi\<close> refuses,
  or that is below 1, gives page 1 and page size 20.  \<open>getAllEventsHandler\<close> looks at
  the value \<open>Atoi\<close> returns and not at its error; the value is 0 when the text is not a
  number.
\<close>

lemma getEventsByTagHandler_coerces:
  assumes "getEventsByTagHandler db tagParam pageStr limitStr (Status200 (rows, pg))"
  shows "(snd (Atoi (Query pageStr ''1'')) \<noteq> None \<or> fst (Atoi (Query pageStr ''1'')) < 1 \<longrightarrow>
            CurrentPage pg = 1) \<and>
         (snd (Atoi (Query limitStr ''20'')) \<noteq> None \<or> fst (Atoi (Query limitStr ''20'')) < 1 \<longrightarrow>
            PerPage pg = 20) \<and>
         1 \<le> CurrentPage pg \<and> 1 \<le> PerPage pg"
  using assms by cases auto

lemma getAllEventsHandler_coerces:
  assumes "getAllEventsHandler db pageStr limitStr yearStr monthStr dayStr (Status200 (rows, pg))"
  shows "(snd (Atoi (Query pageStr ''1'')) = Some ErrSyntax \<or> fst (Atoi (Query pageStr ''1'')) < 1 \<longrightarrow>
            CurrentPage pg = 1) \<and>
         (snd (Atoi (Query limitStr ''20'')) = Some ErrSyntax \<or> fst (Atoi (Query limitStr ''20'')) < 1 \<longrightarrow>
            PerPage pg = 20) \<and>
         1 \<le> CurrentPage pg \<and> 1 \<le> PerPage pg"
  using assms by cases (auto dest: Atoi_syntax_error)

text \<open>
  Claim C3 fails where the arithmetic leaves the range of \<open>int\<close>, which no handler
  guards against.  On a table of two events, \<open>limit=9223372036854775807\<close> is answered
  with \<open>last_page\<close> \<open>-1\<close>, where the ceiling of \<open>2 / limit\<close> is 1: the sum
  \<open>total + limit\<close> wraps around.  And \<open>page=4611686018427387905&limit=4\<close> is answered
  with the first two rows of the table: the offset \<open>(page - 1) * 4\<close> is \<open>2 ^ 64\<close> and
  wraps around to 0.
\<close>

theorem getAllEventsHandler_pagination_overflow:
  "(getAllEventsHandler db_two [] ''9223372036854775807'' [] [] [] r \<longleftrightarrow>
      r = Status200 ([pizza_row, genesis_row],
            \<lparr>CurrentPage = 1, PerPage = 9223372036854775807, Total = 2, LastPage = - 1\<rparr>)) \<and>
   (getAllEventsHandler db_two ''4611686018427387905'' ''4'' [] [] [] r \<longleftrightarrow>
      r = Status200 ([pizza_row, genesis_row],
            \<lparr>CurrentPage = 4611686018427387905, PerPage = 4, Total = 2, LastPage = 1\<rparr>))"
proof -
  have w: "filter (getAllEvents_where [] [] []) (events db_two) =
           [genesis_row, pizza_row]"
    by (simp add: db_two_def getAllEvents_where_def)
  have o: "sql_order_by date_desc [genesis_row, pizza_row] out \<longleftrightarrow>
           out = [pizza_row, genesis_row]" for out
    by (rule order_by_pair)
       (simp_all add: date_desc_def time_le_def genesis_row_def pizza_row_def genesis_def pizza_def
         t2009_def t2010_def)
  have big: "fst (Atoi (Query ''9223372036854775807'' ''20'')) = 9223372036854775807"
    by (simp add: eval_num)
  have pg: "fst (Atoi (Query ''4611686018427387905'' ''1'')) = 4611686018427387905"
    by (simp add: eval_num)
  have four: "fst (Atoi (Query ''4'' ''20'')) = 4"
    by (simp add: eval_num)
  have a: "wrap64 ((1 - 1) * 9223372036854775807) = 0"
    "quot (wrap64 (wrap64 (int (length [genesis_row, pizza_row]) +
        9223372036854775807) - 1)) 9223372036854775807 = - 1"
    "wrap64 ((4611686018427387905 - 1) * 4) = 0"
    "quot (wrap64 (wrap64 (int (length [genesis_row, pizza_row]) + 4) - 1)) 4 = 1"
    by (simp_all add: wrap64_def quot_def)
  have "getAllEventsHandler db_two [] ''9223372036854775807'' [] [] [] r \<longleftrightarrow>
      r = Status200 ([pizza_row, genesis_row],
            \<lparr>CurrentPage = 1, PerPage = 9223372036854775807, Total = 2, LastPage = - 1\<rparr>)"
    by (subst getAllEventsHandler_eval [OF default_page big _ _ w a(1) a(2)])
       (simp_all add: o limit_offset_def)
  moreover have "getAllEventsHandler db_two ''4611686018427387905'' ''4'' [] [] [] r \<longleftrightarrow>
      r = Status200 ([pizza_row, genesis_row],
            \<lparr>CurrentPage = 4611686018427387905, PerPage = 4, Total = 2, LastPage = 1\<rparr>)"
    by (subst getAllEventsHandler_eval [OF pg four _ _ w a(3) a(4)])
       (simp_all add: o limit_offset_def)
  ultimately show ?thesis by (simp only: simp_thms)
qed

subsection \<open>The tag list\<close>

text \<open>
  The \<open>SELECT\<close> statement of the query does what the claim describes, but for one
  case: its \<open>TRIM\<close> removes spaces only, so an entry that is a tab character is
  counted.
\<close>

lemma tag_counts_sorted:
  "sorted (map Tag (tag_counts J db)) \<and> distinct (map Tag (tag_counts J db))"
  by (auto simp: tag_counts_def Let_def comp_def)

lemma tag_counts_counts:
  "ti \<in> set (tag_counts J db) \<longleftrightarrow>
     Tag ti \<in> set (concat (map (row_tags J) (events db))) \<and>
     ti = \<lparr>Tag = Tag ti, Count = int (count_list (concat (map (row_tags J) (events db))) (Tag ti))\<rparr>"
  unfolding tag_counts_def Let_def by (cases ti) auto

lemma row_tags_skipped:
  "Tags e = [] \<or> Tags e = ''[]'' \<or> J (Tags e) = NotJSON \<or> J (Tags e) = NotArray \<Longrightarrow>
   row_tags J e = []"
  by (auto simp: row_tags_def)

lemma each_tag_blank: "list_all (\<lambda>c. c = CHR '' '') v \<Longrightarrow> each_tag (JText v) = []"
proof -
  assume "list_all (\<lambda>c. c = CHR '' '') v"
  then have d: "dropWhile (\<lambda>c. c = CHR '' '') v = []"
    by (induction v) auto
  have "sql_TRIM v = []"
    by (simp add: sql_TRIM_def d)
  then show ?thesis
    by (simp add: each_tag_def)
qed

lemma each_tag_counted:
  assumes "\<not> list_all (\<lambda>c. c = CHR '' '') v"
  shows "each_tag (JText v) = [sql_LOWER v]"
proof -
  let ?P = "\<lambda>c. c = CHR '' ''"
  from assms have ne: "dropWhile ?P v \<noteq> []"
    by (simp add: dropWhile_eq_Nil_conv list_all_iff)
  then have "\<not> ?P (hd (dropWhile ?P v))"
    by (rule hd_dropWhile)
  moreover from ne have "hd (dropWhile ?P v) \<in> set (rev (dropWhile ?P v))"
    by simp
  ultimately have "dropWhile ?P (rev (dropWhile ?P v)) \<noteq> []"
    unfolding dropWhile_eq_Nil_conv by blast
  then have "sql_TRIM v \<noteq> []"
    by (simp add: sql_TRIM_def)
  then show ?thesis
    by (simp add: each_tag_def)
qed

lemma tag_counts_tab:
  "tag_counts sample_json (db_2021\<lparr>events := [tab_tagged]\<rparr>) = [\<lparr>Tag = [CHR 0x09], Count = 1\<rparr>]"
  by (simp add: tag_counts_def row_tags_def each_tag_def sql_TRIM_def sql_LOWER_def
      lower_char_def sample_json_def tab_tagged_def taproot_def db_2021_def Let_def)

lemma driver_query_sqlQuery: "driver_query st (sqlQuery J db) = rows_of st Comment"
  by (simp add: sqlQuery_def)

text \<open>
  Claim C4 fails for every table that has a tag.  The text of the query does not end
  with its \<open>SELECT\<close> statement: after the semicolon comes a comment, which the driver
  runs as the last piece of the text, and the rows handed to \<open>Scan\<close> are those of that
  piece, which has none.  So \<open>getTagsHandler\<close> answers with no tag at all, or, where
  the row loop does not end, never answers, whatever the table holds.  On a table whose
  only row has the tags \<open>["Lightning","lightning"]\<close> the \<open>SELECT\<close> statement selects
  \<open>lightning\<close> with count 2, which is what the claim says, and the handler returns
  nothing of it.
\<close>

theorem getTagsHandler_no_tag:
  "getTagsHandler Ends J db = Some (Status200 []) \<and>
   getTagsHandler Loops J db = None \<and>
   tag_counts sample_json (db_2021\<lparr>events := [twice_tagged]\<rparr>) =
     [\<lparr>Tag = ''lightning'', Count = 2\<rparr>] \<and>
   getTagsHandler Ends sample_json (db_2021\<lparr>events := [twice_tagged]\<rparr>) = Some (Status200 [])"
proof -
  have a: "getTagsHandler Ends J' db' = Some (Status200 [])" for J' db'
    by (simp add: getTagsHandler_def driver_query_sqlQuery rows_of_def)
  have b: "getTagsHandler Loops J db = None"
    by (simp add: getTagsHandler_def driver_query_sqlQuery rows_of_def)
  have c: "tag_counts sample_json (db_2021\<lparr>events := [twice_tagged]\<rparr>) =
     [\<lparr>Tag = ''lightning'', Count = 2\<rparr>]"
    by (simp add: tag_counts_def row_tags_def each_tag_def sql_TRIM_def sql_LOWER_def
        lower_char_def sample_json_def twice_tagged_def taproot_def db_2021_def Let_def)
  from a [of J db] a [of sample_json "db_2021\<lparr>events := [twice_tagged]\<rparr>"] b c
  show ?thesis by (simp only: simp_thms)
qed

subsection \<open>Fetching one event\<close>

lemma find_None_ID: "find (\<lambda>e. ID e = i) es = None \<longleftrightarrow> i \<notin> set (map ID es)"
  by (induction es) auto

text \<open>
  Claim C5.  In \<open>getEventHandler\<close>, an id that is not a decimal numeral below \<open>2 ^ 32\<close>
  (the empty string, a string with a character that is not a digit, or a value above
  4294967295) yields status 400, a validation error; an id that is such a numeral and is
  the id of no stored row yields status 404 with "Event not found"; and the two outcomes
  are different responses.
\<close>

theorem getEventHandler_errors:
  "((idstr = [] \<or> \<not> list_all is_digit idstr \<or> 4294967295 < dec_val idstr) \<longrightarrow>
      (\<exists>msg. getEventHandler db idstr = Status400 msg)) \<and>
   ((idstr \<noteq> [] \<and> list_all is_digit idstr \<and> dec_val idstr \<le> 4294967295 \<and>
     dec_val idstr \<notin> set (map ID (events db))) \<longrightarrow>
      getEventHandler db idstr = Status404 ''Event not found'') \<and>
   (\<forall>msg msg'. (Status400 msg :: Event Response) \<noteq> Status404 msg')"
proof -
  have "find (\<lambda>e. ID e = dec_val idstr) (events db) = None"
    if "dec_val idstr \<notin> set (map ID (events db))"
    using that by (simp add: find_None_ID)
  then show ?thesis
    by (auto simp: getEventHandler_def ParseUint32_def db_First_def)
qed

text \<open>
  The scenario of the specification: \<open>abc\<close> is refused as an id, and \<open>999999\<close> is not
  found in an empty table.
\<close>

theorem getEventHandler_errors_witness:
  "getEventHandler fresh_db ''abc'' = Status400 ''Invalid Event ID format'' \<and>
   getEventHandler fresh_db ''999999'' = Status404 ''Event not found''"
  using getEventHandler_errors [of "''abc''" fresh_db]
    getEventHandler_errors [of "''999999''" fresh_db]
  by (simp add: getEventHandler_def ParseUint32_def db_First_def fresh_db_def is_digit_def
      dec_val_def digit_val_def)

subsection \<open>The search query\<close>

lemma sanitizeFTS_no_quote: "CHR 0x22 \<notin> set query \<Longrightarrow> sanitizeFTS query = query"
  by (induction query) (auto simp: sanitizeFTS_def)

lemma outside_strings_no_quote: "CHR 0x22 \<notin> set s \<Longrightarrow> outside_strings False s = s"
  by (induction s) auto

text \<open>
  Claim C6 does not hold of \<open>ftsSearchHandler\<close>: the only character it touches is the
  quotation mark, and it never puts the query between quotation marks.  The queries
  \<open>btc*\<close> and \<open>title:satoshi\<close> reach FTS5 unchanged, with the prefix operator
  \<open>*\<close> and the column filter \<open>title:\<close> outside any string, and so does every
  query without a quotation mark.  In \<open>say "hi"\<close> the marks are doubled to
  \<open>say ""hi""\<close>, which FTS5 reads as two empty strings around the bareword \<open>hi\<close>:
  all of the caller's text is still outside the strings.
\<close>

theorem sanitizeFTS_keeps_operators:
  "sanitizeFTS ''btc*'' = ''btc*'' \<and>
   outside_strings False (sanitizeFTS ''btc*'') = ''btc*'' \<and>
   sanitizeFTS ''title:satoshi'' = ''title:satoshi'' \<and>
   outside_strings False (sanitizeFTS ''title:satoshi'') = ''title:satoshi'' \<and>
   sanitizeFTS ''say \"hi\"'' = ''say \"\"hi\"\"'' \<and>
   outside_strings False (sanitizeFTS ''say \"hi\"'') = ''say hi''"
  by (simp add: sanitizeFTS_def)

subsection \<open>Events by tag\<close>

lemma getEventsByTagHandler_eval:
  assumes "tagParam \<noteq> []"
    and "Atoi (Query pageStr ''1'') = (p, pe)" and "Atoi (Query limitStr ''20'') = (l, le)"
    and "page = (if pe \<noteq> None \<or> p < 1 then 1 else p)"
    and "limit = (if le \<noteq> None \<or> l < 1 then 20 else l)"
    and "filter (\<lambda>e. sql_LIKE (searchTerm tagParam) (sql_LOWER (Tags e))) (events db) = matching"
    and "wrap64 ((page - 1) * limit) = offset"
    and "quot (wrap64 (wrap64 (int (length matching) + limit) - 1)) limit = totalPages"
  shows "getEventsByTagHandler db tagParam pageStr limitStr r \<longleftrightarrow>
   (\<exists>ordered. sql_order_by date_desc matching ordered \<and>
      r = Status200 (limit_offset limit offset ordered,
            \<lparr>CurrentPage = page, PerPage = limit, Total = int (length matching),
             LastPage = totalPages\<rparr>))"
proof
  assume "getEventsByTagHandler db tagParam pageStr limitStr r"
  then show "\<exists>ordered. sql_order_by date_desc matching ordered \<and>
      r = Status200 (limit_offset limit offset ordered,
            \<lparr>CurrentPage = page, PerPage = limit, Total = int (length matching),
             LastPage = totalPages\<rparr>)"
  proof cases
    case no_tag
    with assms(1) show ?thesis by simp
  next
    case (tagged page' limit' offset' matching' totalEvents ordered totalPages')
    with assms have "page' = page" "limit' = limit" "matching' = matching" by simp_all
    with tagged assms show ?thesis by blast
  qed
next
  assume "\<exists>ordered. sql_order_by date_desc matching ordered \<and>
      r = Status200 (limit_offset limit offset ordered,
            \<lparr>CurrentPage = page, PerPage = limit, Total = int (length matching),
             LastPage = totalPages\<rparr>)"
  then obtain ordered where o: "sql_order_by date_desc matching ordered" and
    r: "r = Status200 (limit_offset limit offset ordered,
            \<lparr>CurrentPage = page, PerPage = limit, Total = int (length matching),
             LastPage = totalPages\<rparr>)" by blast
  show "getEventsByTagHandler db tagParam pageStr limitStr r"
    unfolding r
    by (rule getEventsByTagHandler.tagged [where ordered = ordered and matching = matching])
       (use assms o in simp_all)
qed

text \<open>
  For a tag without the wildcards \<open>%\<close> and \<open>_\<close> the \<open>LIKE\<close> condition of the
  handler is the quoted-substring match of the specification.
\<close>

lemma LIKE_percent:
  "sql_LIKE (CHR ''%'' # ps) s \<longleftrightarrow> (\<exists>k\<le>length s. sql_LIKE ps (drop k s))"
proof (induction s)
  case Nil
  then show ?case by simp
next
  case (Cons c cs)
  have "(\<exists>k\<le>length (c # cs). sql_LIKE ps (drop k (c # cs))) \<longleftrightarrow>
        sql_LIKE ps (c # cs) \<or> (\<exists>k\<le>length cs. sql_LIKE ps (drop k cs))"
  proof
    assume "\<exists>k\<le>length (c # cs). sql_LIKE ps (drop k (c # cs))"
    then obtain k where k: "k \<le> length (c # cs)" "sql_LIKE ps (drop k (c # cs))" by blast
    show "sql_LIKE ps (c # cs) \<or> (\<exists>k\<le>length cs. sql_LIKE ps (drop k cs))"
    proof (cases k)
      case 0
      with k show ?thesis by simp
    next
      case (Suc j)
      with k have "j \<le> length cs" "sql_LIKE ps (drop j cs)" by simp_all
      then show ?thesis by blast
    qed
  next
    assume "sql_LIKE ps (c # cs) \<or> (\<exists>k\<le>length cs. sql_LIKE ps (drop k cs))"
    then show "\<exists>k\<le>length (c # cs). sql_LIKE ps (drop k (c # cs))"
    proof
      assume "sql_LIKE ps (c # cs)"
      then have "0 \<le> length (c # cs) \<and> sql_LIKE ps (drop 0 (c # cs))" by simp
      then show ?thesis by blast
    next
      assume "\<exists>k\<le>length cs. sql_LIKE ps (drop k cs)"
      then obtain k where "k \<le> length cs" "sql_LIKE ps (drop k cs)" by blast
      then have "Suc k \<le> length (c # cs) \<and> sql_LIKE ps (drop (Suc k) (c # cs))" by simp
      then show ?thesis by blast
    qed
  qed
  with Cons.IH show ?case by simp
qed

lemma LIKE_literal:
  "CHR ''%'' \<notin> set lit \<Longrightarrow> CHR ''_'' \<notin> set lit \<Longrightarrow>
   sql_LIKE (lit @ ps) s \<longleftrightarrow>
     length lit \<le> length s \<and> map lower_char (take (length lit) s) = map lower_char lit \<and>
     sql_LIKE ps (drop (length lit) s)"
proof (induction lit arbitrary: s)
  case Nil
  then show ?case by simp
next
  case (Cons p lit)
  then have p: "p \<noteq> CHR ''%''" "p \<noteq> CHR ''_''" and
    rest: "CHR ''%'' \<notin> set lit" "CHR ''_'' \<notin> set lit" by auto
  show ?case
  proof (cases s)
    case Nil
    with p show ?thesis by simp
  next
    case (Cons c cs)
    with p Cons.IH [OF rest, of cs] show ?thesis by auto
  qed
qed

lemma lower_char_cases:
  "lower_char c = c \<or> lower_char c \<in> set ''abcdefghijklmnopqrstuvwxyz''"
proof (cases "map_of (zip ''ABCDEFGHIJKLMNOPQRSTUVWXYZ'' ''abcdefghijklmnopqrstuvwxyz'') c")
  case None
  then show ?thesis by (simp add: lower_char_def)
next
  case (Some l)
  then have "(c, l) \<in> set (zip ''ABCDEFGHIJKLMNOPQRSTUVWXYZ'' ''abcdefghijklmnopqrstuvwxyz'')"
    by (rule map_of_SomeD)
  then have "l \<in> set ''abcdefghijklmnopqrstuvwxyz''"
    by (rule set_zip_rightD)
  with Some show ?thesis by (simp add: lower_char_def)
qed

lemma lower_char_small_all:
  "list_all (\<lambda>l. lower_char l = l) ''abcdefghijklmnopqrstuvwxyz''"
  by (simp add: lower_char_def)

lemma lower_char_small: "l \<in> set ''abcdefghijklmnopqrstuvwxyz'' \<Longrightarrow> lower_char l = l"
  using lower_char_small_all unfolding list_all_iff by blast

lemma lower_char_idem: "lower_char (lower_char c) = lower_char c"
proof -
  from lower_char_cases [of c] show ?thesis
  proof
    assume "lower_char c = c"
    then show ?thesis by (simp only:)
  next
    assume "lower_char c \<in> set ''abcdefghijklmnopqrstuvwxyz''"
    then show ?thesis by (rule lower_char_small)
  qed
qed

lemma lower_char_wildcard:
  "lower_char c = CHR ''%'' \<Longrightarrow> c = CHR ''%''" "lower_char c = CHR ''_'' \<Longrightarrow> c = CHR ''_''"
proof -
  have b: "CHR ''%'' \<notin> set ''abcdefghijklmnopqrstuvwxyz''"
    "CHR ''_'' \<notin> set ''abcdefghijklmnopqrstuvwxyz''"
    by simp_all
  show "c = CHR ''%''" if l: "lower_char c = CHR ''%''"
  proof -
    from lower_char_cases [of c] have "CHR ''%'' = c \<or> CHR ''%'' \<in> set ''abcdefghijklmnopqrstuvwxyz''"
      unfolding l .
    with b(1) show ?thesis by blast
  qed
  show "c = CHR ''_''" if l: "lower_char c = CHR ''_''"
  proof -
    from lower_char_cases [of c] have "CHR ''_'' = c \<or> CHR ''_'' \<in> set ''abcdefghijklmnopqrstuvwxyz''"
      unfolding l .
    with b(2) show ?thesis by blast
  qed
qed

lemma sublist_take_drop:
  "sublist lit s \<longleftrightarrow> (\<exists>k\<le>length s. length lit \<le> length (drop k s) \<and> take (length lit) (drop k s) = lit)"
proof
  assume "sublist lit s"
  then obtain ps ss where s: "s = ps @ lit @ ss" by (auto simp: sublist_def)
  then have "length ps \<le> length s \<and> length lit \<le> length (drop (length ps) s) \<and>
             take (length lit) (drop (length ps) s) = lit"
    by simp
  then show "\<exists>k\<le>length s. length lit \<le> length (drop k s) \<and> take (length lit) (drop k s) = lit"
    by blast
next
  assume "\<exists>k\<le>length s. length lit \<le> length (drop k s) \<and> take (length lit) (drop k s) = lit"
  then obtain k where k: "take (length lit) (drop k s) = lit" by blast
  have "s = take k s @ take (length lit) (drop k s) @ drop (length lit) (drop k s)"
    by (simp only: append_take_drop_id)
  with k have "s = take k s @ lit @ drop (length lit) (drop k s)" by simp
  then show "sublist lit s" unfolding sublist_def by blast
qed

lemma tag_match_without_wildcards:
  assumes "CHR ''%'' \<notin> set tagParam" and "CHR ''_'' \<notin> set tagParam"
  shows "sql_LIKE (searchTerm tagParam) (sql_LOWER raw) \<longleftrightarrow> quoted_tag_occurs tagParam raw"
proof -
  let ?lit = "''\"'' @ ToLower tagParam @ ''\"''"
  let ?s = "sql_LOWER raw"
  from assms have nw: "CHR ''%'' \<notin> set ?lit" "CHR ''_'' \<notin> set ?lit"
    by (auto simp: ToLower_def dest: lower_char_wildcard [OF sym])
  have ll: "map lower_char ?lit = ?lit"
    by (simp add: ToLower_def lower_char_idem) (simp add: lower_char_def)
  have mm: "map lower_char (map lower_char raw) = map lower_char raw"
    by (induction raw) (simp_all add: lower_char_idem)
  have ls: "map lower_char (take n (drop k ?s)) = take n (drop k ?s)" for n k
  proof -
    have "map lower_char (take n (drop k (map lower_char raw))) =
          take n (drop k (map lower_char (map lower_char raw)))"
      by (simp only: take_map drop_map)
    with mm show ?thesis by (simp only: sql_LOWER_def)
  qed
  have any: "sql_LIKE ''%'' t" for t
    using LIKE_percent [of "[]" t] by auto
  have "searchTerm tagParam = CHR ''%'' # ?lit @ ''%''"
    by (simp add: searchTerm_def)
  then have "sql_LIKE (searchTerm tagParam) ?s \<longleftrightarrow>
        (\<exists>k\<le>length ?s. sql_LIKE (?lit @ ''%'') (drop k ?s))"
    by (simp only: LIKE_percent)
  also have "\<dots> \<longleftrightarrow> (\<exists>k\<le>length ?s. length ?lit \<le> length (drop k ?s) \<and>
        take (length ?lit) (drop k ?s) = ?lit)"
    by (simp only: LIKE_literal [OF nw] ls ll any simp_thms)
  also have "\<dots> \<longleftrightarrow> sublist ?lit ?s"
    by (simp only: sublist_take_drop)
  finally show ?thesis by (simp only: quoted_tag_occurs_def)
qed

text \<open>
  Claim C7 fails for a tag that holds a \<open>LIKE\<close> wildcard: the handler puts the tag into
  the pattern as it is, so \<open>_\<close> in the tag stands for any character and \<open>%\<close> for any
  run of characters.  A request for tag \<open>el_salvador\<close> is answered with the event whose
  tags are \<open>["el-salvador"]\<close>, although \<open>"el_salvador"\<close> does not occur in that text.
\<close>

theorem getEventsByTagHandler_wildcard:
  "(getEventsByTagHandler db_tagged ''el_salvador'' [] [] r \<longleftrightarrow>
      r = Status200 ([legal_tender],
            \<lparr>CurrentPage = 1, PerPage = 20, Total = 1, LastPage = 1\<rparr>)) \<and>
   \<not> quoted_tag_occurs ''el_salvador'' (Tags legal_tender)"
proof -
  have w: "filter (\<lambda>e. sql_LIKE (searchTerm ''el_salvador'') (sql_LOWER (Tags e)))
             (events db_tagged) = [legal_tender]"
    by (simp add: db_tagged_def legal_tender_def searchTerm_def ToLower_def sql_LOWER_def
        lower_char_def)
  have a: "wrap64 ((1 - 1) * 20) = 0"
    "quot (wrap64 (wrap64 (int (length [legal_tender]) + 20) - 1)) 20 = 1"
    by (simp_all add: wrap64_def quot_def)
  have "getEventsByTagHandler db_tagged ''el_salvador'' [] [] r \<longleftrightarrow>
      r = Status200 ([legal_tender],
            \<lparr>CurrentPage = 1, PerPage = 20, Total = 1, LastPage = 1\<rparr>)"
    by (subst getEventsByTagHandler_eval [OF _ default_page_ok default_limit_ok _ _ w a(1) a(2)])
       (simp_all add: order_by_single limit_offset_def)
  moreover have "\<not> quoted_tag_occurs ''el_salvador'' (Tags legal_tender)"
    by (simp add: quoted_tag_occurs_def legal_tender_def ToLower_def sql_LOWER_def
        lower_char_def sublist_code prefix_code list.pred_inject)
  ultimately show ?thesis by (simp only: simp_thms)
qed
subsection \<open>Creating events\<close>

lemma max_id_ge: "e \<in> set es \<Longrightarrow> ID e \<le> max_id es"
  by (induction es) (auto simp: max_id_def)


lemma next_id_fresh: "Suc (max s (max_id es)) \<notin> set (map ID es)"
proof
  assume "Suc (max s (max_id es)) \<in> set (map ID es)"
  then obtain e where "e \<in> set es" "ID e = Suc (max s (max_id es))" by auto
  with max_id_ge [of e es] show False by simp
qed


lemma db_Create_no_id:
  assumes "ID e = 0" and "max (seq db) (max_id (events db)) < max_rowid"
  shows "db_Create now e db =
     Inr (e\<lparr>ID := Suc (max (seq db) (max_id (events db))),
            CreatedAt := stamp now (CreatedAt e), UpdatedAt := stamp now (UpdatedAt e)\<rparr>,
          db\<lparr>events := events db @
                 [e\<lparr>ID := Suc (max (seq db) (max_id (events db))),
                    CreatedAt := stamp now (CreatedAt e), UpdatedAt := stamp now (UpdatedAt e)\<rparr>],
             events_fts := events_after_insert
                 (e\<lparr>ID := Suc (max (seq db) (max_id (events db))),
                    CreatedAt := stamp now (CreatedAt e), UpdatedAt := stamp now (UpdatedAt e)\<rparr>)
                 (events_fts db),
             seq := Suc (max (seq db) (max_id (events db)))\<rparr>)"
  using assms next_id_fresh [of "seq db" "events db"]
  by (simp add: db_Create_def Let_def max_def)

text \<open>
  Claim C8, as stated, fails: a create request may carry an id and timestamps of its own
  (the struct's JSON tags \<open>id\<close>, \<open>created_at\<close> and \<open>updated_at\<close> are read from the
  body), and GORM inserts them.  A valid record sent with id 7 and a creation time of 2009
  is stored under id 7 with that creation time, where storage would have given id 1 and
  the time of the insert; and a valid record sent with the id of an existing row is not
  stored at all: the insert is refused and the answer is status 500.  Nor is a valid
  record sent without an id stored once the table has held a row with the largest id:
  storage has no id left to assign.
\<close>

theorem createEventHandler_caller_id_counterexample:
  "Title genesis \<noteq> [] \<and> \<not> IsZero (Date genesis) \<and>
   fst (createEventHandler t2025 fresh_db (Some (genesis\<lparr>ID := 7, CreatedAt := t2009\<rparr>))) =
     Status201 (genesis\<lparr>ID := 7, CreatedAt := t2009, UpdatedAt := t2025\<rparr>) \<and>
   \<not> storage_assigned t2025 fresh_db (genesis\<lparr>ID := 7, CreatedAt := t2009, UpdatedAt := t2025\<rparr>) \<and>
   createEventHandler t2025
       (fresh_db\<lparr>events := [pizza\<lparr>ID := 7\<rparr>], events_fts := Index [doc_of (pizza\<lparr>ID := 7\<rparr>)],
                 seq := 7\<rparr>)
       (Some (genesis\<lparr>ID := 7\<rparr>)) =
     (Status500 ''Failed to create event'',
      fresh_db\<lparr>events := [pizza\<lparr>ID := 7\<rparr>], events_fts := Index [doc_of (pizza\<lparr>ID := 7\<rparr>)],
                seq := 7\<rparr>) \<and>
   ID genesis = 0 \<and>
   createEventHandler t2025 full_db (Some genesis) =
     (Status500 ''Failed to create event'', full_db)"
  by (simp add: genesis_def pizza_def t2009_def t2025_def zero_time_def IsZero_def
      createEventHandler_def db_Create_def fresh_db_def full_db_def genesis_row_def
      storage_assigned_def max_id_def max_rowid_def stamp_def Let_def)

text \<open>
  Claim C8, amended.  For a create request whose body parses, \<open>createEventHandler\<close>
  answers with a validation error (status 400) exactly when the title is empty or the
  date is zero.  Otherwise:

  \<^item> a record sent without an id (id 0) is stored as a new row under the next id of
    storage, an id no row has, with each timestamp the request left zero set to the time
    of the insert, as long as storage has an id left, that is, as long as the largest id
    the table ever held is below \<open>9223372036854775807\<close>;

  \<^item> once that id has been used, a record sent without an id is refused by storage
    (status 500) and the database is unchanged;

  \<^item> a record sent with an id of at most \<open>9223372036854775807\<close> that no row has is
    stored under that id;

  \<^item> a record sent with the id of an existing row is refused by storage (status 500)
    and the database is unchanged.
\<close>

theorem createEventHandler_outcomes:
  "((\<exists>msg. fst (createEventHandler now db (Some e)) = Status400 msg) \<longleftrightarrow>
      Title e = [] \<or> IsZero (Date e)) \<and>
   (Title e \<noteq> [] \<and> \<not> IsZero (Date e) \<and> ID e = 0 \<and>
    max (seq db) (max_id (events db)) < max_rowid \<longrightarrow>
      (\<exists>new db'. createEventHandler now db (Some e) = (Status201 new, db') \<and>
         events db' = events db @ [new] \<and>
         ID new = Suc (max (seq db) (max_id (events db))) \<and>
         ID new \<notin> set (map ID (events db)) \<and>
         new = e\<lparr>ID := ID new, CreatedAt := stamp now (CreatedAt e),
                  UpdatedAt := stamp now (UpdatedAt e)\<rparr>)) \<and>
   (Title e \<noteq> [] \<and> \<not> IsZero (Date e) \<and> ID e = 0 \<and>
    max_rowid \<le> max (seq db) (max_id (events db)) \<longrightarrow>
      createEventHandler now db (Some e) = (Status500 ''Failed to create event'', db)) \<and>
   (Title e \<noteq> [] \<and> \<not> IsZero (Date e) \<and> ID e \<noteq> 0 \<and> ID e \<le> max_rowid \<and>
    ID e \<notin> set (map ID (events db)) \<longrightarrow>
      (\<exists>new db'. createEventHandler now db (Some e) = (Status201 new, db') \<and>
         events db' = events db @ [new] \<and>
         new = e\<lparr>CreatedAt := stamp now (CreatedAt e), UpdatedAt := stamp now (UpdatedAt e)\<rparr>)) \<and>
   (Title e \<noteq> [] \<and> \<not> IsZero (Date e) \<and> ID e \<noteq> 0 \<and> ID e \<in> set (map ID (events db)) \<longrightarrow>
      createEventHandler now db (Some e) = (Status500 ''Failed to create event'', db))"
proof (intro conjI)
  show "(\<exists>msg. fst (createEventHandler now db (Some e)) = Status400 msg) \<longleftrightarrow>
      Title e = [] \<or> IsZero (Date e)"
    by (auto simp: createEventHandler_def split: sum.splits)
next
  show "Title e \<noteq> [] \<and> \<not> IsZero (Date e) \<and> ID e = 0 \<and>
    max (seq db) (max_id (events db)) < max_rowid \<longrightarrow>
      (\<exists>new db'. createEventHandler now db (Some e) = (Status201 new, db') \<and>
         events db' = events db @ [new] \<and>
         ID new = Suc (max (seq db) (max_id (events db))) \<and>
         ID new \<notin> set (map ID (events db)) \<and>
         new = e\<lparr>ID := ID new, CreatedAt := stamp now (CreatedAt e),
                  UpdatedAt := stamp now (UpdatedAt e)\<rparr>)"
    using next_id_fresh [of "seq db" "events db"]
    by (simp add: createEventHandler_def db_Create_no_id)
next
  show "Title e \<noteq> [] \<and> \<not> IsZero (Date e) \<and> ID e = 0 \<and>
    max_rowid \<le> max (seq db) (max_id (events db)) \<longrightarrow>
      createEventHandler now db (Some e) = (Status500 ''Failed to create event'', db)"
    by (simp add: createEventHandler_def db_Create_def)
next
  show "Title e \<noteq> [] \<and> \<not> IsZero (Date e) \<and> ID e \<noteq> 0 \<and> ID e \<le> max_rowid \<and>
    ID e \<notin> set (map ID (events db)) \<longrightarrow>
      (\<exists>new db'. createEventHandler now db (Some e) = (Status201 new, db') \<and>
         events db' = events db @ [new] \<and>
         new = e\<lparr>CreatedAt := stamp now (CreatedAt e), UpdatedAt := stamp now (UpdatedAt e)\<rparr>)"
    by (simp add: createEventHandler_def db_Create_def Let_def)
next
  show "Title e \<noteq> [] \<and> \<not> IsZero (Date e) \<and> ID e \<noteq> 0 \<and> ID e \<in> set (map ID (events db)) \<longrightarrow>
      createEventHandler now db (Some e) = (Status500 ''Failed to create event'', db)"
    by (simp add: createEventHandler_def db_Create_def Let_def)
qed

text \<open>
  On a new database: a record without title and date is refused, and the genesis event,
  sent without an id, is stored under id 1 with both timestamps set by storage.  On a
  database whose table holds a row with the largest id, the genesis event sent without an
  id is refused with status 500; sent with id 7 it is stored under id 7.
\<close>

theorem createEventHandler_outcomes_witness:
  "fst (createEventHandler t2025 fresh_db (Some untitled)) =
     Status400 ''Title and Date are required fields'' \<and>
   fst (createEventHandler t2025 fresh_db (Some genesis)) =
     Status201 (genesis\<lparr>ID := 1, CreatedAt := t2025, UpdatedAt := t2025\<rparr>) \<and>
   events (snd (createEventHandler t2025 fresh_db (Some genesis))) =
     [genesis\<lparr>ID := 1, CreatedAt := t2025, UpdatedAt := t2025\<rparr>] \<and>
   createEventHandler t2025 full_db (Some genesis) =
     (Status500 ''Failed to create event'', full_db) \<and>
   fst (createEventHandler t2025 full_db (Some (genesis\<lparr>ID := 7\<rparr>))) =
     Status201 (genesis\<lparr>ID := 7, CreatedAt := t2025, UpdatedAt := t2025\<rparr>) \<and>
   createEventHandler t2025 full_db (Some (genesis\<lparr>ID := 9223372036854775807\<rparr>)) =
     (Status500 ''Failed to create event'', full_db)"
  using createEventHandler_outcomes [of t2025 fresh_db untitled]
    createEventHandler_outcomes [of t2025 fresh_db genesis]
    createEventHandler_outcomes [of t2025 full_db genesis]
    createEventHandler_outcomes [of t2025 full_db "genesis\<lparr>ID := 7\<rparr>"]
    createEventHandler_outcomes [of t2025 full_db "genesis\<lparr>ID := 9223372036854775807\<rparr>"]
  by (simp add: genesis_def genesis_row_def untitled_def t2009_def t2025_def zero_time_def
      IsZero_def createEventHandler_def db_Create_def fresh_db_def full_db_def max_id_def
      max_rowid_def stamp_def Let_def events_after_insert_def fts_insert_def)

subsection \<open>Creating events in a batch\<close>








subsection \<open>The pages of a search\<close>


end
